theory Spec2Isabelle
  imports
    Main
    "HOL-Library.Char_ord"
    "HOL-Library.List_Lexorder"
    "HOL-Library.Sublist"
    "HOL-Library.Multiset"
begin

section \<open>Python strings\<close>

text \<open>
  A Python \<open>str\<close> is modelled as a \<^typ>\<open>string\<close> whose characters are the code points
  below 256.  With \<open>Char_ord\<close> and \<open>List_Lexorder\<close> the order on \<^typ>\<open>string\<close> is the
  lexicographic order by code point, which is how Python compares \<open>str\<close> values.
\<close>

definition isspace :: "char \<Rightarrow> bool" where
  \<comment> \<open>the code points below 256 that \<open>str.isspace\<close> accepts\<close>
  "isspace c =
     (let n = (of_char c :: nat)
      in (9 \<le> n \<and> n \<le> 13) \<or> (28 \<le> n \<and> n \<le> 32) \<or> n = 133 \<or> n = 160)"

definition lstrip :: "string \<Rightarrow> string" where
  "lstrip s = dropWhile isspace s"

definition rstrip :: "string \<Rightarrow> string" where
  "rstrip s = rev (dropWhile isspace (rev s))"

definition strip :: "string \<Rightarrow> string" where
  "strip s = rstrip (lstrip s)"

definition lower_char :: "char \<Rightarrow> char" where
  "lower_char c =
     (let n = (of_char c :: nat)
      in if (65 \<le> n \<and> n \<le> 90) \<or> (192 \<le> n \<and> n \<le> 222 \<and> n \<noteq> 215)
         then char_of (n + 32) else c)"

definition lower :: "string \<Rightarrow> string" where
  "lower s = map lower_char s"

fun startswith :: "string \<Rightarrow> string \<Rightarrow> bool" where
  "startswith s [] = True"
| "startswith [] (p # ps) = False"
| "startswith (c # cs) (p # ps) = (c = p \<and> startswith cs ps)"

definition endswith :: "string \<Rightarrow> string \<Rightarrow> bool" where
  "endswith s suf = startswith (rev s) (rev suf)"

fun str_contains :: "string \<Rightarrow> string \<Rightarrow> bool" where
  \<comment> \<open>\<open>sub in s\<close>\<close>
  "str_contains sub [] = (sub = [])"
| "str_contains sub (c # cs) = (startswith (c # cs) sub \<or> str_contains sub cs)"

section \<open>The parsed document\<close>

text \<open>
  An \<open>xml.etree.ElementTree.Element\<close>: its tag, its attribute dictionary in document
  order, its text (\<open>None\<close> when there is none) and its children.  \<open>iter\<close> lists the
  element and all its descendants in document order.
\<close>

datatype element =
  Element (tag: string) (attrib: "(string \<times> string) list")
          (elem_text: "string option") (children: "element list")

fun iter :: "element \<Rightarrow> element list" where
  "iter (Element t a x cs) = Element t a x cs # concat (map iter cs)"

definition iter_tag :: "string \<Rightarrow> element \<Rightarrow> element list" where
  \<comment> \<open>\<open>root.iter(name)\<close>\<close>
  "iter_tag name root = filter (\<lambda>e. tag e = name) (iter root)"

section \<open>Collecting the candidate paths\<close>

definition method1_step :: "element \<Rightarrow> string set \<Rightarrow> string set" where
  "method1_step file_ref asset_paths =
     (if endswith (tag file_ref) ''fileReference''
         \<or> str_contains ''fileReference'' (tag file_ref)
      then (case map_of (attrib file_ref) ''fullpath'' of
              None \<Rightarrow> asset_paths
            | Some fullpath \<Rightarrow>
                if fullpath \<noteq> [] \<and> strip fullpath \<noteq> []
                then insert (strip fullpath) asset_paths
                else asset_paths)
      else asset_paths)"

definition method2_step :: "element \<Rightarrow> string set \<Rightarrow> string set" where
  "method2_step fullpath asset_paths =
     (case elem_text fullpath of
        None \<Rightarrow> asset_paths
      | Some t \<Rightarrow> if t \<noteq> [] then insert t asset_paths else asset_paths)"

definition method3_attr :: "string \<times> string \<Rightarrow> string set \<Rightarrow> string set" where
  "method3_attr av asset_paths =
     (if str_contains ''path'' (lower (fst av)) \<or> str_contains ''file'' (lower (fst av))
      then insert (snd av) asset_paths
      else asset_paths)"

definition method3_step :: "element \<Rightarrow> string set \<Rightarrow> string set" where
  "method3_step elem asset_paths =
     (if tag elem \<in> set [''file'', ''path'', ''src'', ''source'']
      then fold method3_attr (attrib elem)
             (case elem_text elem of
                None \<Rightarrow> asset_paths
              | Some t \<Rightarrow> if t \<noteq> [] then insert t asset_paths else asset_paths)
      else asset_paths)"

definition collect_asset_paths :: "element \<Rightarrow> string set" where
  \<comment> \<open>the three loops of \<open>parse_aepx\<close> that fill the set \<open>asset_paths\<close>\<close>
  "collect_asset_paths root =
     fold method3_step (iter root)
       (fold method2_step (iter_tag ''fullpath'' root)
          (fold method1_step (iter root) {}))"

section \<open>Path names\<close>

text \<open>
  The functions of \<open>os.path\<close> that \<open>parse_aepx\<close> calls, as CPython 3.11 defines them
  for POSIX (\<open>posixpath.py\<close>, \<open>genericpath.py\<close>), on \<open>str\<close> arguments.
\<close>

fun str_split :: "char \<Rightarrow> string \<Rightarrow> string list" where
  \<comment> \<open>\<open>s.split(c)\<close>\<close>
  "str_split c [] = [[]]"
| "str_split c (x # xs) =
     (if x = c then [] # str_split c xs
      else (case str_split c xs of w # ws \<Rightarrow> (x # w) # ws | [] \<Rightarrow> [[x]]))"

fun str_join :: "string \<Rightarrow> string list \<Rightarrow> string" where
  \<comment> \<open>\<open>s.join(xs)\<close>\<close>
  "str_join s [] = []"
| "str_join s [x] = x"
| "str_join s (x # y # ys) = x @ s @ str_join s (y # ys)"

fun rfind :: "string \<Rightarrow> char \<Rightarrow> int" where
  \<comment> \<open>\<open>s.rfind(c)\<close>: the last index of \<open>c\<close>, or \<open>-1\<close>\<close>
  "rfind [] c = - 1"
| "rfind (x # xs) c =
     (let r = rfind xs c in if 0 \<le> r then r + 1 else if x = c then 0 else - 1)"

definition rstrip_char :: "char \<Rightarrow> string \<Rightarrow> string" where
  \<comment> \<open>\<open>s.rstrip(c)\<close>\<close>
  "rstrip_char c s = rev (dropWhile (\<lambda>x. x = c) (rev s))"

definition isabs :: "string \<Rightarrow> bool" where
  "isabs s = startswith s ''/''"

definition join_step :: "string \<Rightarrow> string \<Rightarrow> string" where
  "join_step b p =
     (if startswith b ''/'' then b
      else if p = [] \<or> endswith p ''/'' then p @ b
      else p @ ''/'' @ b)"

definition join :: "string \<Rightarrow> string list \<Rightarrow> string" where
  \<comment> \<open>\<open>join(a, *ps)\<close>\<close>
  "join a ps = fold join_step ps a"

definition normpath_step :: "nat \<Rightarrow> string \<Rightarrow> string list \<Rightarrow> string list" where
  "normpath_step initial_slashes component new_comps =
     (if component = [] \<or> component = ''.'' then new_comps
      else if component \<noteq> ''..'' \<or> (initial_slashes = 0 \<and> new_comps = [])
              \<or> (new_comps \<noteq> [] \<and> last new_comps = ''..'')
      then new_comps @ [component]
      else if new_comps \<noteq> [] then butlast new_comps
      else new_comps)"

definition normpath :: "string \<Rightarrow> string" where
  "normpath p =
     (if p = [] then ''.''
      else
        let initial_slashes =
              (if startswith p ''/''
               then (if startswith p ''//'' \<and> \<not> startswith p ''///'' then 2 else 1)
               else (0::nat));
            comps = str_split (CHR ''/'') p;
            new_comps = fold (normpath_step initial_slashes) comps [];
            q = str_join ''/'' new_comps;
            r = (if initial_slashes \<noteq> 0 then replicate initial_slashes (CHR ''/'') @ q else q)
        in if r = [] then ''.'' else r)"

definition dirname :: "string \<Rightarrow> string" where
  "dirname p =
     (let i = rfind p (CHR ''/'') + 1;
          head = take (nat i) p
      in if head \<noteq> [] \<and> head \<noteq> replicate (length head) (CHR ''/'')
         then rstrip_char (CHR ''/'') head
         else head)"

definition basename :: "string \<Rightarrow> string" where
  "basename p = (let i = rfind p (CHR ''/'') + 1 in drop (nat i) p)"

function splitext_loop :: "string \<Rightarrow> int \<Rightarrow> int \<Rightarrow> string \<times> string" where
  "splitext_loop p filenameIndex dotIndex =
     (if filenameIndex < dotIndex
      then (if take 1 (drop (nat filenameIndex) p) \<noteq> ''.''
            then (take (nat dotIndex) p, drop (nat dotIndex) p)
            else splitext_loop p (filenameIndex + 1) dotIndex)
      else (p, []))"
  by pat_completeness auto
termination
  by (relation "measure (\<lambda>(p, i, d). nat (d - i))") auto

declare splitext_loop.simps [simp del]

definition splitext :: "string \<Rightarrow> string \<times> string" where
  "splitext p =
     (let sepIndex = rfind p (CHR ''/'');
          dotIndex = rfind p (CHR ''.'')
      in if dotIndex > sepIndex then splitext_loop p (sepIndex + 1) dotIndex else (p, []))"

fun commonprefix :: "string list \<Rightarrow> string list \<Rightarrow> string list" where
  \<comment> \<open>\<open>commonprefix([xs, ys])\<close> on two lists of components: their longest common prefix\<close>
  "commonprefix (x # xs) (y # ys) = (if x = y then x # commonprefix xs ys else [])"
| "commonprefix xs ys = []"

section \<open>The operating system\<close>

text \<open>
  What the program reads from its environment: the working directory, the result of
  \<open>os.stat\<close> on a path name and the result of \<open>ET.parse\<close> on a path name (an exception,
  or the root element of the parsed document).  An exception carries its class and the
  text that \<open>str\<close> gives for it.
\<close>

datatype exc_type =
  ParseError | FileNotFoundError | PermissionError | IsADirectoryError | OSError | ValueError

datatype exn = Raise (exc_type: exc_type) (exc_str: string)

record stat_result =
  st_isreg :: bool
  st_size :: nat

record os_env =
  getcwd :: string
  stat :: "string \<Rightarrow> exn + stat_result"
  ET_parse :: "string \<Rightarrow> exn + element"

definition exists :: "os_env \<Rightarrow> string \<Rightarrow> bool" where
  "exists os p = (case stat os p of Inl e \<Rightarrow> False | Inr st \<Rightarrow> True)"

definition isfile :: "os_env \<Rightarrow> string \<Rightarrow> bool" where
  "isfile os p = (case stat os p of Inl e \<Rightarrow> False | Inr st \<Rightarrow> st_isreg st)"

definition getsize :: "os_env \<Rightarrow> string \<Rightarrow> exn + nat" where
  "getsize os p = (case stat os p of Inl e \<Rightarrow> Inl e | Inr st \<Rightarrow> Inr (st_size st))"

definition abspath :: "os_env \<Rightarrow> string \<Rightarrow> string" where
  "abspath os p = normpath (if \<not> isabs p then join (getcwd os) [p] else p)"

definition relpath :: "os_env \<Rightarrow> string \<Rightarrow> string \<Rightarrow> exn + string" where
  "relpath os p start =
     (if p = [] then Inl (Raise ValueError ''no path specified'')
      else
        let start_list = filter (\<lambda>x. x \<noteq> []) (str_split (CHR ''/'') (abspath os start));
            path_list = filter (\<lambda>x. x \<noteq> []) (str_split (CHR ''/'') (abspath os p));
            i = length (commonprefix start_list path_list);
            rel_list = replicate (length start_list - i) ''..'' @ drop i path_list
        in if rel_list = [] then Inr ''.'' else Inr (join (hd rel_list) (tl rel_list)))"

section \<open>Resolving the candidates\<close>

record asset =
  path :: string
  relative_path :: string
  filename :: string
  extension :: string
  size_bytes :: nat

record report =
  project_file :: string
  assets :: "asset list"
  missing_assets :: "string list"
  total_size :: nat

text \<open>
  A Python set of \<open>str\<close> iterates in an order that depends on the hash seed of the
  process.  The order is a parameter of the model: a ranking \<open>h\<close> of the strings, which
  rearranges the elements of the set.  Every enumeration of a finite set without
  repetition is \<open>set_iter h\<close> for some \<open>h\<close> (lemma \<open>set_iter_complete\<close>).
\<close>

definition set_iter :: "(string \<Rightarrow> nat) \<Rightarrow> string set \<Rightarrow> string list" where
  "set_iter h S = sort_key h (sorted_list_of_set S)"

definition rank_in :: "string list \<Rightarrow> string \<Rightarrow> nat" where
  \<comment> \<open>the position of \<open>y\<close> in \<open>xs\<close>: the ranking that yields the enumeration \<open>xs\<close>\<close>
  "rank_in xs y = length (takeWhile (\<lambda>z. z \<noteq> y) xs)"

definition process_asset :: "os_env \<Rightarrow> string \<Rightarrow> string \<Rightarrow> report \<Rightarrow> exn + report" where
  \<comment> \<open>the body of the loop over \<open>asset_paths\<close>\<close>
  "process_asset os project_dir asset_path result =
     (if asset_path = [] \<or> strip asset_path = [] then Inr result
      else
        let asset_path1 = strip asset_path
        in if startswith asset_path1 ''http://'' \<or> startswith asset_path1 ''https://''
              \<or> startswith asset_path1 ''file://''
           then Inr result
           else
             let asset_path2 =
                   (if \<not> isabs asset_path1 then join project_dir [asset_path1]
                    else asset_path1);
                 asset_path3 = normpath asset_path2
             in if exists os asset_path3 \<and> isfile os asset_path3
                then (case getsize os asset_path3 of
                        Inl e \<Rightarrow> Inl e
                      | Inr file_size \<Rightarrow>
                          (case relpath os asset_path3 project_dir of
                             Inl e \<Rightarrow> Inl e
                           | Inr rel \<Rightarrow>
                               Inr (result
                                 \<lparr>assets := assets result @
                                    [\<lparr>path = asset_path3,
                                      relative_path = rel,
                                      filename = basename asset_path3,
                                      extension = snd (splitext asset_path3),
                                      size_bytes = file_size\<rparr>],
                                  total_size := total_size result + file_size\<rparr>)))
                else Inr (result\<lparr>missing_assets := missing_assets result @ [asset_path3]\<rparr>))"

fun process_assets :: "os_env \<Rightarrow> string \<Rightarrow> string list \<Rightarrow> report \<Rightarrow> exn + report" where
  \<comment> \<open>the loop; an exception raised by the body ends it\<close>
  "process_assets os project_dir [] result = Inr result"
| "process_assets os project_dir (asset_path # rest) result =
     (case process_asset os project_dir asset_path result of
        Inl e \<Rightarrow> Inl e
      | Inr result' \<Rightarrow> process_assets os project_dir rest result')"

definition parse_aepx :: "os_env \<Rightarrow> (string \<Rightarrow> nat) \<Rightarrow> string \<Rightarrow> exn + report \<times> string list" where
  \<comment> \<open>the report, and the lines written to the error stream; \<open>Inl\<close> is an exception that
      leaves the function\<close>
  "parse_aepx os h aepx_path =
     (let result = \<lparr>project_file = abspath os aepx_path, assets = [],
                     missing_assets = [], total_size = 0\<rparr>
      in case ET_parse os aepx_path of
           Inl e \<Rightarrow> Inr (result, [''Warning: XML parse error: '' @ exc_str e])
         | Inr root \<Rightarrow>
             let asset_paths = collect_asset_paths root;
                 project_dir = dirname (abspath os aepx_path)
             in (case process_assets os project_dir (set_iter h asset_paths) result of
                   Inl e \<Rightarrow> Inl e
                 | Inr result' \<Rightarrow>
                     Inr (result'\<lparr>assets := sort_key path (assets result'),
                                   missing_assets := sort (missing_assets result')\<rparr>, [])))"

section \<open>JSON output\<close>

text \<open>
  \<open>json.dumps(value, indent=n)\<close> on the values the report is made of, with the default
  \<open>ensure_ascii\<close>: every character outside the printable ASCII range, the quote and the
  backslash are escaped.
\<close>

datatype json = JStr string | JInt nat | JList "json list" | JDict "(string \<times> json) list"

fun str_nat :: "nat \<Rightarrow> string" where
  "str_nat n =
     (if n < 10 then [''0123456789'' ! n]
      else str_nat (n div 10) @ [''0123456789'' ! (n mod 10)])"

declare str_nat.simps [simp del]

definition escape_char :: "char \<Rightarrow> string" where
  "escape_char c =
     (let n = (of_char c :: nat)
      in if n = 0x5C then [CHR 0x5C, CHR 0x5C]
         else if n = 0x22 then [CHR 0x5C, CHR 0x22]
         else if n = 8 then [CHR 0x5C, CHR ''b'']
         else if n = 12 then [CHR 0x5C, CHR ''f'']
         else if n = 10 then [CHR 0x5C, CHR ''n'']
         else if n = 13 then [CHR 0x5C, CHR ''r'']
         else if n = 9 then [CHR 0x5C, CHR ''t'']
         else if n < 32 \<or> 126 < n
         then [CHR 0x5C, CHR ''u'', CHR ''0'', CHR ''0'',
               ''0123456789abcdef'' ! (n div 16), ''0123456789abcdef'' ! (n mod 16)]
         else [c])"

definition encode_basestring_ascii :: "string \<Rightarrow> string" where
  "encode_basestring_ascii s = [CHR 0x22] @ concat (map escape_char s) @ [CHR 0x22]"

fun iterencode :: "nat \<Rightarrow> nat \<Rightarrow> json \<Rightarrow> string" where
  "iterencode ind lvl (JStr s) = encode_basestring_ascii s"
| "iterencode ind lvl (JInt n) = str_nat n"
| "iterencode ind lvl (JList vs) =
     (if vs = [] then ''[]''
      else let newline_indent = CHR 0x0A # replicate (ind * (lvl + 1)) (CHR '' '')
           in ''['' @ newline_indent
              @ str_join ('','' @ newline_indent) (map (iterencode ind (lvl + 1)) vs)
              @ CHR 0x0A # replicate (ind * lvl) (CHR '' '') @ '']'')"
| "iterencode ind lvl (JDict kvs) =
     (if kvs = [] then ''{}''
      else let newline_indent = CHR 0x0A # replicate (ind * (lvl + 1)) (CHR '' '')
           in ''{'' @ newline_indent
              @ str_join ('','' @ newline_indent)
                  (map (\<lambda>kv. encode_basestring_ascii (fst kv) @ '': ''
                               @ iterencode ind (lvl + 1) (snd kv)) kvs)
              @ CHR 0x0A # replicate (ind * lvl) (CHR '' '') @ ''}'')"

definition json_dumps :: "nat \<Rightarrow> json \<Rightarrow> string" where
  "json_dumps indent v = iterencode indent 0 v"

definition asset_json :: "asset \<Rightarrow> json" where
  "asset_json a =
     JDict [(''path'', JStr (path a)), (''relative_path'', JStr (relative_path a)),
            (''filename'', JStr (filename a)), (''extension'', JStr (extension a)),
            (''size'', JInt (size_bytes a))]"

definition report_json :: "report \<Rightarrow> json" where
  "report_json r =
     JDict [(''project_file'', JStr (project_file r)),
            (''assets'', JList (map asset_json (assets r))),
            (''missing_assets'', JList (map JStr (missing_assets r))),
            (''total_size'', JInt (total_size r))]"

section \<open>The command line\<close>

text \<open>
  A run of the program: how it ended (an exit code, or an exception that nothing caught)
  and what it wrote to the two streams.  \<open>print\<close> ends what it writes with a newline.
\<close>

datatype status = Exited nat | Uncaught exn

record run =
  status :: status
  stdout :: string
  stderr :: string

definition print :: "string \<Rightarrow> string" where
  "print s = s @ [CHR 0x0A]"

definition main :: "os_env \<Rightarrow> (string \<Rightarrow> nat) \<Rightarrow> string list \<Rightarrow> run" where
  "main os h argv =
     (if length argv \<noteq> 2
      then \<lparr>status = Exited 1, stdout = [],
            stderr = print ''Usage: parse_aepx.py <path-to-aepx-file>''\<rparr>
      else
        let aepx_path = argv ! 1
        in if \<not> exists os aepx_path
           then \<lparr>status = Exited 1, stdout = [],
                 stderr = print (''Error: File '' @ [CHR 0x27] @ aepx_path @ [CHR 0x27]
                                 @ '' not found'')\<rparr>
           else if \<not> endswith aepx_path ''.aepx''
           then \<lparr>status = Exited 1, stdout = [],
                 stderr = print ''Error: File must have .aepx extension''\<rparr>
           else (case parse_aepx os h aepx_path of
                   Inl e \<Rightarrow> \<lparr>status = Uncaught e, stdout = [], stderr = []\<rparr>
                 | Inr (result, err) \<Rightarrow>
                     \<lparr>status = Exited (if missing_assets result \<noteq> [] then 2 else 0),
                      stdout = print (json_dumps 2 (report_json result)),
                      stderr = concat (map print err)\<rparr>))"

section \<open>The printed report, line by line\<close>

text \<open>
  The text that the specification's JSON schema describes for a report, pretty-printed
  with two spaces per level: the four keys in their order, each asset as an object of
  five keys, each list entry on a line of its own.
\<close>

definition asset_lines :: "asset \<Rightarrow> string" where
  "asset_lines a =
     ''    {\<newline>''
     @ ''      \"path\": '' @ encode_basestring_ascii (path a) @ '',\<newline>''
     @ ''      \"relative_path\": '' @ encode_basestring_ascii (relative_path a) @ '',\<newline>''
     @ ''      \"filename\": '' @ encode_basestring_ascii (filename a) @ '',\<newline>''
     @ ''      \"extension\": '' @ encode_basestring_ascii (extension a) @ '',\<newline>''
     @ ''      \"size\": '' @ str_nat (size_bytes a) @ ''\<newline>''
     @ ''    }''"

definition list_lines :: "string list \<Rightarrow> string" where
  \<comment> \<open>a JSON array at the first level: one entry per line, or \<open>[]\<close>\<close>
  "list_lines entries =
     (if entries = [] then ''[]''
      else ''[\<newline>'' @ str_join '',\<newline>'' entries @ ''\<newline>  ]'')"

definition report_text :: "report \<Rightarrow> string" where
  "report_text r =
     ''{\<newline>''
     @ ''  \"project_file\": '' @ encode_basestring_ascii (project_file r) @ '',\<newline>''
     @ ''  \"assets\": '' @ list_lines (map asset_lines (assets r)) @ '',\<newline>''
     @ ''  \"missing_assets\": ''
         @ list_lines (map (\<lambda>s. ''    '' @ encode_basestring_ascii s) (missing_assets r))
         @ '',\<newline>''
     @ ''  \"total_size\": '' @ str_nat (total_size r) @ ''\<newline>''
     @ ''}''"

section \<open>An example project\<close>

definition example_root :: element where
  "example_root =
     Element ''AfterEffectsProject'' [] None
       [Element ''Item'' [(''name'', ''clip'')] None
          [Element ''fileReference'' [(''fullpath'', '' footage/clip.mov '')] None []],
        Element ''path'' [] (Some ''footage/clip.mov'') [],
        Element ''fileReference'' [(''fullpath'', ''missing/img.png'')] None [],
        Element ''source'' [(''filePath'', ''https://example.com/a.mov'')] (Some ''  '') [],
        Element ''fullpath'' [] (Some ''HTTP://example.com/a.mov'') []]"

definition upper_case_root :: element where
  "upper_case_root =
     Element ''AfterEffectsProject'' [] None
       [Element ''fileReference'' [(''fullpath'', ''HTTP://example.com/a.mov'')] None []]"

definition lower_case_root :: element where
  "lower_case_root =
     Element ''AfterEffectsProject'' [] None
       [Element ''fileReference'' [(''fullpath'', ''http://example.com/a.mov'')] None []]"

definition nested_root :: element where
  "nested_root =
     Element ''AfterEffectsProject'' [] None
       [Element ''Fold'' [] None
          [Element ''{http://www.adobe.com/products/aftereffects}fileReference''
             [(''fullpath'', '' a.mov ''), (''other'', ''no.mov'')] None [],
           Element ''Item'' [] None
             [Element ''file'' [(''FILEPATH'', ''x.mov''), (''name'', ''n.mov'')]
                (Some ''t.mov'') [],
              Element ''fullpath'' [] (Some '' b.mov '') []]],
        Element ''src'' [(''SrcFile'', ''y.mov'')] None [],
        Element ''fileReferenceList'' [(''fullpath'', ''c.mov'')] None [],
        Element ''Path'' [(''path'', ''z.mov'')] (Some ''q.mov'') [],
        Element ''fileReference'' [(''fullpath'', ''   '')] None []]"

definition two_spellings_root :: element where
  "two_spellings_root =
     Element ''AfterEffectsProject'' [] None
       [Element ''fileReference'' [(''fullpath'', ''missing/img.png'')] None [],
        Element ''path'' [] (Some ''./missing/img.png'') []]"

definition example_os :: os_env where
  "example_os =
     \<lparr>getcwd = ''/proj'',
      stat = (\<lambda>p. if p \<in> set [''/proj/main.aepx'', ''main.aepx'', ''/proj/broken.aepx'',
                                  ''broken.aepx'',
                                  ''/proj/upper.aepx'', ''/proj/lower.aepx'',
                                  ''/proj/twice.aepx'']
                   then Inr \<lparr>st_isreg = True, st_size = 300\<rparr>
                   else if p = ''/proj/footage/clip.mov''
                   then Inr \<lparr>st_isreg = True, st_size = 1024\<rparr>
                   else if p = ''/proj'' \<or> p = ''/proj/footage''
                   then Inr \<lparr>st_isreg = False, st_size = 4096\<rparr>
                   else Inl (Raise FileNotFoundError ''[Errno 2] No such file or directory'')),
      ET_parse = (\<lambda>p. if p = ''/proj/main.aepx'' \<or> p = ''main.aepx'' then Inr example_root
                       else if p = ''/proj/upper.aepx'' then Inr upper_case_root
                       else if p = ''/proj/lower.aepx'' then Inr lower_case_root
                       else if p = ''/proj/twice.aepx'' then Inr two_spellings_root
                       else if p = ''/proj/broken.aepx'' \<or> p = ''broken.aepx''
                       then Inl (Raise ParseError ''syntax error: line 1, column 0'')
                       else Inl (Raise FileNotFoundError
                                   ''[Errno 2] No such file or directory''))\<rparr>"

definition example_report :: report where
  "example_report =
     \<lparr>project_file = ''/proj/main.aepx'',
      assets = [\<lparr>path = ''/proj/footage/clip.mov'', relative_path = ''footage/clip.mov'',
                 filename = ''clip.mov'', extension = ''.mov'', size_bytes = 1024\<rparr>],
      missing_assets = [''/proj/HTTP:/example.com/a.mov'', ''/proj/missing/img.png''],
      total_size = 1024\<rparr>"

definition empty_report :: "string \<Rightarrow> report" where
  "empty_report project_file_abs =
     \<lparr>project_file = project_file_abs, assets = [], missing_assets = [], total_size = 0\<rparr>"

section \<open>The resolution as the specification words it\<close>

text \<open>
  A candidate survives the two filters when it is not blank and its trimmed value starts
  with none of the three URL schemes.  A survivor resolves to the normalised path of its
  trimmed value, taken relative to the project directory unless it is absolute.
\<close>

definition survives :: "string \<Rightarrow> bool" where
  "survives c \<longleftrightarrow>
     strip c \<noteq> [] \<and> \<not> prefix ''http://'' (strip c) \<and> \<not> prefix ''https://'' (strip c)
     \<and> \<not> prefix ''file://'' (strip c)"

definition resolve :: "string \<Rightarrow> string \<Rightarrow> string" where
  "resolve project_dir c =
     normpath (if isabs (strip c) then strip c else join project_dir [strip c])"

definition resolved :: "string \<Rightarrow> string list \<Rightarrow> string list" where
  "resolved project_dir cs = map (resolve project_dir) (filter survives cs)"

definition candidates_resolved ::
  "os_env \<Rightarrow> (string \<Rightarrow> nat) \<Rightarrow> string \<Rightarrow> element \<Rightarrow> string list" where
  "candidates_resolved os h p root =
     resolved (dirname (abspath os p)) (set_iter h (collect_asset_paths root))"

definition suffix_of :: "string \<Rightarrow> string" where
  \<comment> \<open>the suffix of a file name: from its last dot to the end, when a character other
      than a dot comes before that dot; empty otherwise\<close>
  "suffix_of name =
     (let ext = rev (takeWhile (\<lambda>c. c \<noteq> CHR ''.'') (rev name));
          stem = take (length name - length ext - 1) name
      in if CHR ''.'' \<in> set name \<and> filter (\<lambda>c. c \<noteq> CHR ''.'') stem \<noteq> []
         then CHR ''.'' # ext else [])"

definition asset_of :: "os_env \<Rightarrow> string \<Rightarrow> string \<Rightarrow> asset" where
  \<comment> \<open>the record of the regular file \<open>p\<close>\<close>
  "asset_of os project_dir p =
     \<lparr>path = p,
      relative_path = (case relpath os p project_dir of Inl e \<Rightarrow> [] | Inr rel \<Rightarrow> rel),
      filename = basename p,
      extension = snd (splitext p),
      size_bytes = (case getsize os p of Inl e \<Rightarrow> 0 | Inr n \<Rightarrow> n)\<rparr>"

section \<open>The three rules as the specification words them\<close>


text \<open>
  The nodes of the tree: the root, and every child of a node.  Two characters are the
  same letter when they are equal or differ only by the case of a letter from A to Z.
\<close>

inductive_set nodes :: "element \<Rightarrow> element set" for root :: element where
  self: "root \<in> nodes root"
| child: "e \<in> nodes root \<Longrightarrow> c \<in> set (children e) \<Longrightarrow> c \<in> nodes root"

definition same_letter :: "char \<Rightarrow> char \<Rightarrow> bool" where
  "same_letter c d \<longleftrightarrow>
     c = d
     \<or> (65 \<le> (of_char c :: nat) \<and> (of_char c :: nat) \<le> 90 \<and> (of_char d :: nat) = of_char c + 32)
     \<or> (65 \<le> (of_char d :: nat) \<and> (of_char d :: nat) \<le> 90 \<and> (of_char c :: nat) = of_char d + 32)"

definition contains_ci :: "string \<Rightarrow> string \<Rightarrow> bool" where
  \<comment> \<open>some window of \<open>s\<close> spells \<open>sub\<close>, letter by letter, in any case\<close>
  "contains_ci sub s = (\<exists>w. sublist w s \<and> list_all2 same_letter w sub)"

definition rule_A :: "element \<Rightarrow> string set" where
  "rule_A e =
     {strip v | v.
        (tag e = ''fileReference'' \<or> suffix ''fileReference'' (tag e)
           \<or> sublist ''fileReference'' (tag e))
        \<and> map_of (attrib e) ''fullpath'' = Some v \<and> strip v \<noteq> []}"

definition rule_B :: "element \<Rightarrow> string set" where
  "rule_B e = {t. tag e = ''fullpath'' \<and> elem_text e = Some t \<and> t \<noteq> []}"

definition rule_C :: "element \<Rightarrow> string set" where
  "rule_C e =
     {t. tag e \<in> {''file'', ''path'', ''src'', ''source''} \<and> elem_text e = Some t \<and> t \<noteq> []}
     \<union> {v | a v. tag e \<in> {''file'', ''path'', ''src'', ''source''} \<and> (a, v) \<in> set (attrib e)
            \<and> (contains_ci ''path'' a \<or> contains_ci ''file'' a)}"

section \<open>Facts about the string operations\<close>

lemma startswith_prefix: "startswith s p \<longleftrightarrow> prefix p s"
  by (induction s p rule: startswith.induct) auto

lemma endswith_suffix: "endswith s suf \<longleftrightarrow> suffix suf s"
  by (simp add: endswith_def startswith_prefix suffix_to_prefix)

lemma str_contains_sublist: "str_contains sub s \<longleftrightarrow> sublist sub s"
  by (induction s) (auto simp: startswith_prefix sublist_Cons_right)

lemma sublist_map_conv:
  "sublist ys (map f xs) \<longleftrightarrow> (\<exists>w. sublist w xs \<and> map f w = ys)"
proof
  assume "sublist ys (map f xs)"
  then obtain ps ss where "map f xs = ps @ ys @ ss"
    by (auto simp: sublist_def)
  then have "\<exists>a r. xs = a @ r \<and> map f r = ys @ ss"
    by (metis map_eq_append_conv)
  then obtain a r where a: "xs = a @ r" "map f r = ys @ ss" by blast
  then have "\<exists>b c. r = b @ c \<and> map f b = ys"
    by (metis map_eq_append_conv)
  then obtain b c where "r = b @ c" "map f b = ys" by blast
  with a have "xs = a @ b @ c" "map f b = ys" by simp_all
  then show "\<exists>w. sublist w xs \<and> map f w = ys" by auto
next
  assume "\<exists>w. sublist w xs \<and> map f w = ys"
  then show "sublist ys (map f xs)" by (auto intro: map_mono_sublist)
qed

lemma of_char_lower_char:
  "(of_char (lower_char c) :: nat) =
     (if (65 \<le> (of_char c :: nat) \<and> (of_char c :: nat) \<le> 90)
         \<or> (192 \<le> (of_char c :: nat) \<and> (of_char c :: nat) \<le> 222 \<and> (of_char c :: nat) \<noteq> 215)
      then of_char c + 32 else of_char c)"
proof -
  have "of_char (char_of (of_char c + 32 :: nat)) = (of_char c + 32 :: nat)"
    if "(of_char c :: nat) \<le> 222"
    using that by (simp add: of_char_of)
  then show ?thesis
    by (auto simp: lower_char_def Let_def)
qed

lemma lower_char_same_letter:
  assumes "97 \<le> (of_char d :: nat)" "(of_char d :: nat) \<le> 122"
  shows "lower_char c = d \<longleftrightarrow> same_letter c d"
proof -
  define n m where nm: "n = (of_char c :: nat)" "m = (of_char d :: nat)"
  have cd: "(c = d) = (n = m)"
    unfolding nm by (simp only: of_char_eq_iff)
  have "(lower_char c = d) = ((of_char (lower_char c) :: nat) = m)"
    unfolding nm by (simp only: of_char_eq_iff)
  also have "\<dots> =
      ((if (65 \<le> n \<and> n \<le> 90) \<or> (192 \<le> n \<and> n \<le> 222 \<and> n \<noteq> 215) then n + 32 else n) = m)"
    unfolding of_char_lower_char nm ..
  also have "\<dots> = (n = m \<or> (65 \<le> n \<and> n \<le> 90 \<and> m = n + 32) \<or> (65 \<le> m \<and> m \<le> 90 \<and> n = m + 32))"
    using assms unfolding nm [symmetric] by auto
  also have "\<dots> = same_letter c d"
    unfolding same_letter_def cd nm ..
  finally show ?thesis .
qed

lemma map_lower_same_letter:
  assumes "\<forall>d\<in>set sub. 97 \<le> (of_char d :: nat) \<and> (of_char d :: nat) \<le> 122"
  shows "map lower_char w = sub \<longleftrightarrow> list_all2 same_letter w sub"
  using assms
proof (induction w arbitrary: sub)
  case Nil
  show ?case by auto
next
  case (Cons c w)
  show ?case
  proof (cases sub)
    case Nil
    then show ?thesis by simp
  next
    case (Cons d ds)
    with Cons.prems Cons.IH [of ds] show ?thesis
      by (simp add: lower_char_same_letter)
  qed
qed

lemma contains_ci_lower:
  assumes "\<forall>d\<in>set sub. 97 \<le> (of_char d :: nat) \<and> (of_char d :: nat) \<le> 122"
  shows "contains_ci sub s \<longleftrightarrow> str_contains sub (lower s)"
  by (simp add: contains_ci_def str_contains_sublist lower_def sublist_map_conv
        map_lower_same_letter [OF assms])

section \<open>The candidate set is the union of the three rules\<close>

lemma strip_Nil [simp]: "strip [] = []"
  by (simp add: strip_def lstrip_def rstrip_def)

lemma contains_ci_path: "contains_ci ''path'' a \<longleftrightarrow> str_contains ''path'' (lower a)"
  by (rule contains_ci_lower) simp

lemma contains_ci_file: "contains_ci ''file'' a \<longleftrightarrow> str_contains ''file'' (lower a)"
  by (rule contains_ci_lower) simp

lemma method1_step_rule_A: "method1_step e S = S \<union> rule_A e"
  by (auto simp: method1_step_def rule_A_def endswith_suffix str_contains_sublist
           split: option.splits)

lemma method2_step_rule_B: "tag e = ''fullpath'' \<Longrightarrow> method2_step e S = S \<union> rule_B e"
  by (auto simp: method2_step_def rule_B_def split: option.splits)

lemma rule_B_other: "tag e \<noteq> ''fullpath'' \<Longrightarrow> rule_B e = {}"
  by (simp add: rule_B_def)

lemma method3_attr_ci:
  "method3_attr (a, v) S =
     (if contains_ci ''path'' a \<or> contains_ci ''file'' a then insert v S else S)"
  by (simp add: method3_attr_def contains_ci_path contains_ci_file)

lemma fold_method3_attr:
  "fold method3_attr avs S =
     S \<union> {v | a v. (a, v) \<in> set avs \<and> (contains_ci ''path'' a \<or> contains_ci ''file'' a)}"
proof (induction avs arbitrary: S)
  case Nil
  show ?case by simp
next
  case (Cons av avs)
  show ?case
    by (cases av) (auto simp: Cons.IH method3_attr_ci)
qed

lemma method3_step_rule_C: "method3_step e S = S \<union> rule_C e"
  by (auto simp: method3_step_def rule_C_def fold_method3_attr split: option.splits)

lemma fold_method1: "fold method1_step es S = S \<union> (\<Union>e\<in>set es. rule_A e)"
  by (induction es arbitrary: S) (auto simp: method1_step_rule_A)

lemma fold_method2:
  "fold method2_step (filter (\<lambda>e. tag e = ''fullpath'') es) S = S \<union> (\<Union>e\<in>set es. rule_B e)"
  by (induction es arbitrary: S) (auto simp: method2_step_rule_B rule_B_other)

lemma fold_method3: "fold method3_step es S = S \<union> (\<Union>e\<in>set es. rule_C e)"
  by (induction es arbitrary: S) (auto simp: method3_step_rule_C)

lemma collect_asset_paths_Union:
  "collect_asset_paths root = (\<Union>e\<in>set (iter root). rule_A e \<union> rule_B e \<union> rule_C e)"
  by (auto simp: collect_asset_paths_def iter_tag_def fold_method1 fold_method2 fold_method3)

lemma nodes_trans: "e \<in> nodes c \<Longrightarrow> c \<in> nodes root \<Longrightarrow> e \<in> nodes root"
  by (induction rule: nodes.induct) (auto intro: nodes.child)

lemma iter_self: "root \<in> set (iter root)"
  by (cases root) simp

lemma iter_subset_nodes: "e \<in> set (iter root) \<Longrightarrow> e \<in> nodes root"
proof (induction root arbitrary: e)
  case (Element t a x cs)
  show ?case
  proof (cases "e = Element t a x cs")
    case True
    then show ?thesis by (simp add: nodes.self)
  next
    case False
    with Element.prems obtain c where c: "c \<in> set cs" "e \<in> set (iter c)"
      by auto
    then have "e \<in> nodes c" by (rule Element.IH)
    moreover have "c \<in> nodes (Element t a x cs)"
      using c(1) by (auto intro: nodes.child [OF nodes.self])
    ultimately show ?thesis by (rule nodes_trans)
  qed
qed

lemma iter_children: "e \<in> set (iter root) \<Longrightarrow> c \<in> set (children e) \<Longrightarrow> c \<in> set (iter root)"
proof (induction root arbitrary: e)
  case (Element t a x cs)
  show ?case
  proof (cases "e = Element t a x cs")
    case True
    with Element.prems(2) have "c \<in> set cs" by simp
    then show ?thesis using iter_self [of c] by auto
  next
    case False
    with Element.prems obtain c' where c': "c' \<in> set cs" "e \<in> set (iter c')"
      by auto
    then have "c \<in> set (iter c')"
      using Element.prems(2) by (rule Element.IH)
    with c'(1) show ?thesis by auto
  qed
qed

lemma set_iter_nodes: "set (iter root) = nodes root"
proof
  show "set (iter root) \<subseteq> nodes root"
    by (auto intro: iter_subset_nodes)
  show "nodes root \<subseteq> set (iter root)"
  proof
    fix e assume "e \<in> nodes root"
    then show "e \<in> set (iter root)"
      by (induction rule: nodes.induct) (auto intro: iter_self iter_children)
  qed
qed

lemma example_nested:
  "collect_asset_paths nested_root
     = {''a.mov'', ''x.mov'', ''t.mov'', '' b.mov '', ''y.mov'', ''c.mov''}"
  by code_simp

text \<open>
  Claim C2.  The set of candidates that the three loops of \<open>parse_aepx\<close> build is exactly
  the union, over every node of the parsed tree (the root and all its descendants), of
  what the three rules contribute: Rule A the trimmed, non-blank \<open>fullpath\<close> attribute of
  an element whose tag equals, ends with or contains \<open>fileReference\<close>; Rule B the
  non-empty text, untrimmed, of an element whose tag is \<open>fullpath\<close>; Rule C, for an
  element whose tag is \<open>file\<close>, \<open>path\<close>, \<open>src\<close> or \<open>source\<close>, its non-empty text and
  the value of every attribute whose name contains \<open>path\<close> or \<open>file\<close> in any letter
  case.
\<close>

theorem collect_asset_paths_rules:
  "collect_asset_paths root = (\<Union>e\<in>nodes root. rule_A e \<union> rule_B e \<union> rule_C e)"
  by (simp only: collect_asset_paths_Union set_iter_nodes)

theorem collect_asset_paths_rules_witness:
  "collect_asset_paths nested_root
     = {''a.mov'', ''x.mov'', ''t.mov'', '' b.mov '', ''y.mov'', ''c.mov''}
   \<and> (\<Union>e\<in>nodes nested_root. rule_A e \<union> rule_B e \<union> rule_C e)
     = {''a.mov'', ''x.mov'', ''t.mov'', '' b.mov '', ''y.mov'', ''c.mov''}"
  using collect_asset_paths_rules [of nested_root] example_nested by simp

section \<open>Iterating over the set of candidates\<close>

lemma finite_rule_A: "finite (rule_A e)"
proof -
  have "rule_A e \<subseteq> strip ` set_option (map_of (attrib e) ''fullpath'')"
    by (auto simp: rule_A_def)
  then show ?thesis by (rule finite_subset) simp
qed

lemma finite_rule_B: "finite (rule_B e)"
proof -
  have "rule_B e \<subseteq> set_option (elem_text e)"
    by (auto simp: rule_B_def)
  then show ?thesis by (rule finite_subset) simp
qed

lemma finite_rule_C: "finite (rule_C e)"
proof -
  have "rule_C e \<subseteq> set_option (elem_text e) \<union> snd ` set (attrib e)"
    by (force simp: rule_C_def)
  then show ?thesis by (rule finite_subset) simp
qed

lemma finite_collect_asset_paths [simp]: "finite (collect_asset_paths root)"
  using collect_asset_paths_Union [of root]
  by (simp add: finite_rule_A finite_rule_B finite_rule_C)

lemma set_set_iter: "finite S \<Longrightarrow> set (set_iter h S) = S"
  by (simp add: set_iter_def)

lemma distinct_set_iter: "distinct (set_iter h S)"
  by (simp add: set_iter_def)

lemma mset_set_iter: "mset (set_iter h S) = mset_set S"
proof -
  have "mset (sorted_list_of_set S) = mset_set S"
    by (metis mset_sorted_list_of_multiset sorted_list_of_mset_set)
  then show ?thesis by (simp add: set_iter_def)
qed

lemma rank_in_strict: "distinct xs \<Longrightarrow> sorted_wrt (<) (map (rank_in xs) xs)"
proof (induction xs)
  case Nil
  show ?case by simp
next
  case (Cons x xs)
  have eq: "map (rank_in (x # xs)) xs = map (\<lambda>y. Suc (rank_in xs y)) xs"
    using Cons.prems by (intro map_cong) (auto simp: rank_in_def)
  have "sorted_wrt (<) (map (\<lambda>y. Suc (rank_in xs y)) xs)"
    using Cons by (simp add: sorted_wrt_map)
  then show ?case
    by (simp add: eq) (simp add: rank_in_def)
qed

lemma filter_eq_singleton:
  "distinct ys \<Longrightarrow> k \<in> set ys \<Longrightarrow> filter (\<lambda>x. x = k) ys = [k]"
  by (induction ys) (auto simp: filter_empty_conv)

lemma set_iter_complete:
  assumes "distinct xs"
  shows "\<exists>h. set_iter h (set xs) = xs"
proof -
  let ?h = "rank_in xs"
  have st: "sorted_wrt (<) (map ?h xs)"
    using assms by (rule rank_in_strict)
  then have inj: "inj_on ?h (set xs)"
    by (metis distinct_map strict_sorted_iff)
  have "sort_key ?h (sorted_list_of_set (set xs)) = xs"
  proof (rule properties_for_sort_key)
    show "mset xs = mset (sorted_list_of_set (set xs))"
      using assms by (metis mset_set_iter set_iter_def mset_sort mset_set_set)
    show "sorted (map ?h xs)"
      using st by (metis strict_sorted_iff)
    fix k assume k: "k \<in> set xs"
    have "filter (\<lambda>x. ?h k = ?h x) xs = filter (\<lambda>x. x = k) xs"
      using inj k by (intro filter_cong) (auto dest: inj_onD)
    also have "\<dots> = [k]"
      using assms k by (simp add: filter_eq_singleton)
    finally have a: "filter (\<lambda>x. ?h k = ?h x) xs = [k]" .
    have "filter (\<lambda>x. ?h k = ?h x) (sorted_list_of_set (set xs))
            = filter (\<lambda>x. x = k) (sorted_list_of_set (set xs))"
      using inj k by (intro filter_cong) (auto dest: inj_onD)
    also have "\<dots> = [k]"
      using k by (simp add: filter_eq_singleton)
    finally show "filter (\<lambda>x. ?h k = ?h x) xs
            = filter (\<lambda>x. ?h k = ?h x) (sorted_list_of_set (set xs))"
      using a by simp
  qed
  then show ?thesis
    unfolding set_iter_def by blast
qed

section \<open>The resolution loop\<close>

lemma normpath_not_Nil [simp]: "normpath p \<noteq> []"
  by (simp add: normpath_def Let_def)

lemma relpath_Inr: "p \<noteq> [] \<Longrightarrow> \<exists>rel. relpath os p start = Inr rel"
  by (simp add: relpath_def Let_def)

lemma isfile_exists: "isfile os p \<Longrightarrow> exists os p"
  by (auto simp: isfile_def exists_def split: sum.splits)

lemma isfile_getsize: "isfile os p \<Longrightarrow> \<exists>n. getsize os p = Inr n"
  by (auto simp: isfile_def getsize_def split: sum.splits)

lemma process_asset_eq:
  "process_asset os pd c r =
     Inr (if \<not> survives c then r
          else if isfile os (resolve pd c)
          then r\<lparr>assets := assets r @ [asset_of os pd (resolve pd c)],
                 total_size := total_size r + size_bytes (asset_of os pd (resolve pd c))\<rparr>
          else r\<lparr>missing_assets := missing_assets r @ [resolve pd c]\<rparr>)"
proof (cases "survives c")
  case False
  then show ?thesis
    by (auto simp: process_asset_def survives_def startswith_prefix Let_def)
next
  case True
  let ?p = "resolve pd c"
  have p: "normpath (if \<not> isabs (strip c) then join pd [strip c] else strip c) = ?p"
    by (simp add: resolve_def)
  from True have s: "c \<noteq> []" "strip c \<noteq> []" "\<not> startswith (strip c) ''http://''"
    "\<not> startswith (strip c) ''https://''" "\<not> startswith (strip c) ''file://''"
    by (auto simp: survives_def startswith_prefix)
  show ?thesis
  proof (cases "isfile os ?p")
    case False
    with True s p show ?thesis
      by (simp add: process_asset_def Let_def)
  next
    case isf: True
    then obtain n where n: "getsize os ?p = Inr n"
      using isfile_getsize by blast
    obtain rel where rel: "relpath os ?p pd = Inr rel"
      using relpath_Inr [of ?p os pd] by (auto simp: resolve_def)
    from True s p isf n rel show ?thesis
      by (simp add: process_asset_def Let_def isfile_exists asset_of_def)
  qed
qed

lemma process_assets_eq:
  "process_assets os pd cs r =
     Inr (r\<lparr>assets := assets r @ map (asset_of os pd) (filter (isfile os) (resolved pd cs)),
            missing_assets := missing_assets r @ filter (\<lambda>p. \<not> isfile os p) (resolved pd cs),
            total_size := total_size r
              + sum_list (map size_bytes (map (asset_of os pd) (filter (isfile os) (resolved pd cs))))\<rparr>)"
proof (induction cs arbitrary: r)
  case Nil
  show ?case by (simp add: resolved_def)
next
  case (Cons c cs)
  show ?case
    by (simp add: process_asset_eq Cons.IH resolved_def)
qed


lemma parse_aepx_Inl:
  "ET_parse os p = Inl e \<Longrightarrow>
   parse_aepx os h p =
     Inr (empty_report (abspath os p), [''Warning: XML parse error: '' @ exc_str e])"
  by (simp add: parse_aepx_def empty_report_def)

lemma parse_aepx_Inr:
  "ET_parse os p = Inr root \<Longrightarrow>
   parse_aepx os h p =
     Inr (\<lparr>project_file = abspath os p,
           assets = sort_key path (map (asset_of os (dirname (abspath os p)))
                      (filter (isfile os) (candidates_resolved os h p root))),
           missing_assets = sort (filter (\<lambda>q. \<not> isfile os q) (candidates_resolved os h p root)),
           total_size = sum_list (map size_bytes (map (asset_of os (dirname (abspath os p)))
                      (filter (isfile os) (candidates_resolved os h p root))))\<rparr>, [])"
  by (simp add: parse_aepx_def Let_def process_assets_eq candidates_resolved_def)

lemma sum_list_sort_key:
  "sum_list (map g (sort_key f xs)) = (sum_list (map g xs) :: nat)"
proof -
  have "mset (map g (sort_key f xs)) = mset (map g xs)" by simp
  then have "sum_mset (mset (map g (sort_key f xs))) = sum_mset (mset (map g xs))"
    by (rule arg_cong)
  then show ?thesis by (simp only: sum_mset_sum_list)
qed

lemma example_run:
  "parse_aepx example_os (\<lambda>_. 0) ''/proj/main.aepx'' = Inr (example_report, [])"
  by code_simp

section \<open>Soft failure\<close>

lemma example_missing_file:
  "\<not> exists example_os ''/proj/none.aepx''"
  "ET_parse example_os ''/proj/none.aepx''
     = Inl (Raise FileNotFoundError ''[Errno 2] No such file or directory'')"
  by (simp_all add: example_os_def exists_def)

lemma example_missing_relative:
  "ET_parse example_os ''sub/../none.aepx''
     = Inl (Raise FileNotFoundError ''[Errno 2] No such file or directory'')"
  "abspath example_os ''sub/../none.aepx'' = ''/proj/none.aepx''"
  by code_simp+

text \<open>
  Claim C9.  Whatever exception \<open>ET.parse\<close> raises while it opens or parses the input
  (a missing file and an unreadable file as much as malformed XML), \<open>parse_aepx\<close> returns:
  the report has \<open>project_file\<close> set to the absolute input path, no assets, no missing
  assets and \<open>total_size = 0\<close>, and one warning goes to the error stream.  The exception
  does not leave the function.
\<close>

theorem soft_fail_any_exception:
  "ET_parse os p = Inl e \<Longrightarrow>
   parse_aepx os h p =
     Inr (\<lparr>project_file = abspath os p, assets = [], missing_assets = [], total_size = 0\<rparr>,
          [''Warning: XML parse error: '' @ exc_str e])"
  by (simp add: parse_aepx_def)

theorem soft_fail_any_exception_witness:
  "\<not> exists example_os ''/proj/none.aepx''
   \<and> ET_parse example_os ''/proj/none.aepx''
       = Inl (Raise FileNotFoundError ''[Errno 2] No such file or directory'')
   \<and> parse_aepx example_os (\<lambda>_. 0) ''/proj/none.aepx'' =
       Inr (\<lparr>project_file = ''/proj/none.aepx'', assets = [], missing_assets = [],
              total_size = 0\<rparr>,
            [''Warning: XML parse error: [Errno 2] No such file or directory''])
   \<and> parse_aepx example_os (\<lambda>_. 0) ''sub/../none.aepx'' =
       Inr (\<lparr>project_file = ''/proj/none.aepx'', assets = [], missing_assets = [],
              total_size = 0\<rparr>,
            [''Warning: XML parse error: [Errno 2] No such file or directory''])"
proof -
  have "abspath example_os ''/proj/none.aepx'' = ''/proj/none.aepx''"
    by code_simp
  with soft_fail_any_exception [OF example_missing_file(2), of "\<lambda>_. 0"]
    soft_fail_any_exception [OF example_missing_relative(1), of "\<lambda>_. 0"]
    example_missing_file example_missing_relative(2)
  show ?thesis by simp
qed

section \<open>Invariants of the report\<close>

text \<open>
  Claim C5.  In every report that \<open>parse_aepx\<close> returns, \<open>total_size\<close> is the sum of the
  sizes of the entries of \<open>assets\<close>.
\<close>

theorem total_size_is_sum:
  "parse_aepx os h p = Inr (r, err) \<Longrightarrow> total_size r = sum_list (map size_bytes (assets r))"
proof (cases "ET_parse os p")
  case (Inl e)
  assume "parse_aepx os h p = Inr (r, err)"
  with parse_aepx_Inl [OF Inl, of h] show ?thesis by (auto simp: empty_report_def)
next
  case (Inr root)
  assume "parse_aepx os h p = Inr (r, err)"
  with parse_aepx_Inr [OF Inr, of h] show ?thesis
    by (auto simp: sum_list_sort_key simp del: map_map)
qed

theorem total_size_is_sum_witness:
  "parse_aepx example_os (\<lambda>_. 0) ''/proj/main.aepx'' = Inr (example_report, [])
   \<and> total_size example_report = sum_list (map size_bytes (assets example_report))"
  using total_size_is_sum [OF example_run] example_run by simp

text \<open>
  Claim C7.  In every report that \<open>parse_aepx\<close> returns, the paths of \<open>assets\<close> ascend in
  the lexicographic order of strings, and so do the entries of \<open>missing_assets\<close>.
\<close>

theorem output_sorted:
  "parse_aepx os h p = Inr (r, err) \<Longrightarrow> sorted (map path (assets r)) \<and> sorted (missing_assets r)"
proof (cases "ET_parse os p")
  case (Inl e)
  assume "parse_aepx os h p = Inr (r, err)"
  with parse_aepx_Inl [OF Inl, of h] show ?thesis by (auto simp: empty_report_def)
next
  case (Inr root)
  assume "parse_aepx os h p = Inr (r, err)"
  with parse_aepx_Inr [OF Inr, of h] show ?thesis
    by auto
qed

theorem output_sorted_witness:
  "parse_aepx example_os (\<lambda>_. 0) ''/proj/main.aepx'' = Inr (example_report, [])
   \<and> sorted (map path (assets example_report)) \<and> sorted (missing_assets example_report)"
  using output_sorted [OF example_run] example_run by simp

section \<open>The iteration order of the set does not show\<close>

lemma filter_eq_replicate: "filter (\<lambda>x. x = k) xs = replicate (count (mset xs) k) k"
  by (induction xs) auto

lemma sort_key_mset_cong:
  assumes m: "mset xs = mset ys" and inj: "inj_on f (set xs)"
  shows "sort_key f xs = sort_key f ys"
proof (rule properties_for_sort_key)
  show "mset (sort_key f ys) = mset xs" using m by simp
  show "sorted (map f (sort_key f ys))" by simp
  fix k assume "k \<in> set (sort_key f ys)"
  then have k: "k \<in> set xs" using m by (metis mset_eq_setD set_sort)
  have s: "set ys = set xs" using m by (metis mset_eq_setD)
  have "filter (\<lambda>x. f k = f x) (sort_key f ys) = filter (\<lambda>x. f x = f k) (sort_key f ys)"
    by (rule filter_cong) auto
  also have "\<dots> = filter (\<lambda>x. f x = f k) ys"
    by (rule sort_key_stable)
  also have "\<dots> = filter (\<lambda>x. x = k) ys"
    using inj k s by (intro filter_cong) (auto dest: inj_onD)
  also have "\<dots> = filter (\<lambda>x. x = k) xs"
    by (simp add: filter_eq_replicate m)
  also have "\<dots> = filter (\<lambda>x. f k = f x) xs"
    using inj k by (intro filter_cong) (auto dest: inj_onD)
  finally show "filter (\<lambda>x. f k = f x) (sort_key f ys) = filter (\<lambda>x. f k = f x) xs" .
qed

lemma path_asset_of [simp]: "path (asset_of os pd q) = q"
  by (simp add: asset_of_def)

lemma inj_on_path_asset_of: "inj_on path (asset_of os pd ` Q)"
  by (rule inj_onI) auto

lemma mset_candidates_resolved:
  "mset (candidates_resolved os h p root) =
     image_mset (resolve (dirname (abspath os p)))
       (filter_mset survives (mset_set (collect_asset_paths root)))"
  unfolding candidates_resolved_def resolved_def
  by (simp only: mset_map mset_filter mset_set_iter)

lemma parse_aepx_hash_independent: "parse_aepx os h1 p = parse_aepx os h2 p"
proof (cases "ET_parse os p")
  case (Inl e)
  then show ?thesis by (simp add: parse_aepx_Inl)
next
  case (Inr root)
  let ?R1 = "candidates_resolved os h1 p root" and ?R2 = "candidates_resolved os h2 p root"
  let ?A = "asset_of os (dirname (abspath os p))"
  have m: "mset ?R1 = mset ?R2"
    by (simp only: mset_candidates_resolved)
  then have mf: "mset (map ?A (filter (isfile os) ?R1)) = mset (map ?A (filter (isfile os) ?R2))"
    by (simp only: mset_map mset_filter)
  have a: "sort_key path (map ?A (filter (isfile os) ?R1))
         = sort_key path (map ?A (filter (isfile os) ?R2))"
    using mf by (rule sort_key_mset_cong) (simp add: inj_on_path_asset_of)
  have "mset (filter (\<lambda>q. \<not> isfile os q) ?R1) = mset (filter (\<lambda>q. \<not> isfile os q) ?R2)"
    using m by (simp only: mset_filter)
  then have b: "sort (filter (\<lambda>q. \<not> isfile os q) ?R1) = sort (filter (\<lambda>q. \<not> isfile os q) ?R2)"
    by (intro properties_for_sort) simp_all
  have "sum_mset (mset (map size_bytes (map ?A (filter (isfile os) ?R1))))
      = sum_mset (mset (map size_bytes (map ?A (filter (isfile os) ?R2))))"
    using mf by (simp only: mset_map)
  then have c: "sum_list (map size_bytes (map ?A (filter (isfile os) ?R1)))
      = sum_list (map size_bytes (map ?A (filter (isfile os) ?R2)))"
    by (simp only: sum_mset_sum_list)
  show ?thesis
    by (simp only: parse_aepx_Inr [OF Inr] a b c)
qed

text \<open>
  Claim C8.  Extraction is deterministic.  The document, the file system and the working
  directory are the arguments \<open>os\<close> and \<open>p\<close>; the only other thing a run depends on is
  the order in which the set of candidates is iterated.  Two runs that differ in that
  order return the same report and the same error lines, and the command line writes the
  same bytes to both streams and ends with the same status.
\<close>

theorem extraction_deterministic:
  "parse_aepx os h1 p = parse_aepx os h2 p \<and> main os h1 argv = main os h2 argv"
proof -
  have "parse_aepx os h1 q = parse_aepx os h2 q" for q
    by (rule parse_aepx_hash_independent)
  then show ?thesis unfolding main_def by (simp only:)
qed


section \<open>The command line\<close>

lemma parse_aepx_total: "\<exists>r err. parse_aepx os h p = Inr (r, err)"
  by (cases "ET_parse os p") (simp_all add: parse_aepx_Inl parse_aepx_Inr)

lemma str_join_indent:
  "xs \<noteq> [] \<Longrightarrow> ind @ str_join (sep @ ind) xs = str_join sep (map (\<lambda>x. ind @ x) xs)"
  by (induction sep xs rule: str_join.induct) auto

lemma encode_key:
  "encode_basestring_ascii ''path'' = ''\"path\"''"
  "encode_basestring_ascii ''relative_path'' = ''\"relative_path\"''"
  "encode_basestring_ascii ''filename'' = ''\"filename\"''"
  "encode_basestring_ascii ''extension'' = ''\"extension\"''"
  "encode_basestring_ascii ''size'' = ''\"size\"''"
  "encode_basestring_ascii ''project_file'' = ''\"project_file\"''"
  "encode_basestring_ascii ''assets'' = ''\"assets\"''"
  "encode_basestring_ascii ''missing_assets'' = ''\"missing_assets\"''"
  "encode_basestring_ascii ''total_size'' = ''\"total_size\"''"
  by code_simp+

lemma iterencode_JList:
  "vs \<noteq> [] \<Longrightarrow>
   iterencode ind lvl (JList vs) =
     ''['' @ ''\<newline>'' @ replicate (ind * Suc lvl) (CHR '' '')
     @ str_join ('',\<newline>'' @ replicate (ind * Suc lvl) (CHR '' ''))
         (map (iterencode ind (Suc lvl)) vs)
     @ ''\<newline>'' @ replicate (ind * lvl) (CHR '' '') @ '']''"
  by (simp add: Let_def)

lemma iterencode_asset:
  "''    '' @ iterencode 2 (Suc (Suc 0)) (asset_json a) = asset_lines a"
  by (simp add: asset_json_def asset_lines_def encode_key eval_nat_numeral)

lemma four_spaces: "replicate (2 * Suc (Suc 0)) (CHR '' '') = ''    ''"
  "replicate (2 * Suc 0) (CHR '' '') = ''  ''"
  by (simp_all add: eval_nat_numeral)

lemma iterencode_lines:
  assumes "\<And>x. ''    '' @ iterencode 2 (Suc (Suc 0)) (f x) = g x"
  shows "iterencode 2 (Suc 0) (JList (map f xs)) = list_lines (map g xs)"
proof (cases "xs = []")
  case True
  then show ?thesis by (simp add: list_lines_def)
next
  case False
  then have ne: "map f xs \<noteq> []" "map (iterencode 2 (Suc (Suc 0))) (map f xs) \<noteq> []"
    by simp_all
  have "''    '' @ str_join ('',\<newline>'' @ ''    '') (map (iterencode 2 (Suc (Suc 0))) (map f xs))
        = str_join '',\<newline>'' (map (\<lambda>x. ''    '' @ x) (map (iterencode 2 (Suc (Suc 0))) (map f xs)))"
    using ne(2) by (rule str_join_indent)
  also have "\<dots> = str_join '',\<newline>'' (map g xs)"
    by (simp only: map_map comp_def assms)
  finally have j: "''    '' @ str_join ('',\<newline>'' @ ''    '') (map (iterencode 2 (Suc (Suc 0))) (map f xs))
        = str_join '',\<newline>'' (map g xs)" .
  have "iterencode 2 (Suc 0) (JList (map f xs)) =
     ''['' @ ''\<newline>'' @ (''    '' @ str_join ('',\<newline>'' @ ''    '')
         (map (iterencode 2 (Suc (Suc 0))) (map f xs)))
     @ ''\<newline>'' @ ''  '' @ '']''"
    by (simp only: iterencode_JList [OF ne(1)] four_spaces append_assoc)
  also have "\<dots> = list_lines (map g xs)"
    unfolding j using False by (simp add: list_lines_def)
  finally show ?thesis .
qed

lemma json_dumps_report_text: "json_dumps 2 (report_json r) = report_text r"
proof -
  have a: "iterencode 2 (Suc 0) (JList (map asset_json (assets r)))
             = list_lines (map asset_lines (assets r))"
    by (rule iterencode_lines) (rule iterencode_asset)
  have m: "iterencode 2 (Suc 0) (JList (map JStr (missing_assets r)))
             = list_lines (map (\<lambda>s. ''    '' @ encode_basestring_ascii s) (missing_assets r))"
    by (rule iterencode_lines) simp
  have "json_dumps 2 (report_json r) =
     ''{\<newline>  '' @ encode_basestring_ascii ''project_file'' @ '': ''
       @ encode_basestring_ascii (project_file r)
     @ '',\<newline>  '' @ encode_basestring_ascii ''assets'' @ '': ''
       @ iterencode 2 (Suc 0) (JList (map asset_json (assets r)))
     @ '',\<newline>  '' @ encode_basestring_ascii ''missing_assets'' @ '': ''
       @ iterencode 2 (Suc 0) (JList (map JStr (missing_assets r)))
     @ '',\<newline>  '' @ encode_basestring_ascii ''total_size'' @ '': ''
       @ str_nat (total_size r) @ ''\<newline>}''"
    by (simp add: json_dumps_def report_json_def eval_nat_numeral del: iterencode.simps(3))
  then show ?thesis
    unfolding a m by (simp add: encode_key report_text_def)
qed

lemma example_report_text:
  "print (report_text example_report) =
     ''{\<newline>  \"project_file\": \"/proj/main.aepx\",\<newline>  \"assets\": [\<newline>    {\<newline>      \"path\": \"/proj/footage/clip.mov\",\<newline>      \"relative_path\": \"footage/clip.mov\",\<newline>      \"filename\": \"clip.mov\",\<newline>      \"extension\": \".mov\",\<newline>      \"size\": 1024\<newline>    }\<newline>  ],\<newline>  \"missing_assets\": [\<newline>    \"/proj/HTTP:/example.com/a.mov\",\<newline>    \"/proj/missing/img.png\"\<newline>  ],\<newline>  \"total_size\": 1024\<newline>}\<newline>''"
  by code_simp

lemma example_escape:
  "encode_basestring_ascii [CHR ''a'', CHR 0x22, CHR 0x5C, CHR 0x0A, CHR 0x09, CHR 0x01, CHR 0xE9]
     = [CHR 0x22, CHR ''a'', CHR 0x5C, CHR 0x22, CHR 0x5C, CHR 0x5C, CHR 0x5C, CHR ''n'',
        CHR 0x5C, CHR ''t'', CHR 0x5C, CHR ''u'', CHR ''0'', CHR ''0'', CHR ''0'', CHR ''1'',
        CHR 0x5C, CHR ''u'', CHR ''0'', CHR ''0'', CHR ''e'', CHR ''9'', CHR 0x22]"
  by code_simp

lemma json_dumps_report_indent:
  "\<exists>rest. json_dumps 2 (report_json r) =
     [CHR ''{'', CHR 0x0A, CHR '' '', CHR '' '', CHR 0x22] @ ''project_file'' @ [CHR 0x22]
       @ '': '' @ rest"
  by (simp add: json_dumps_def report_json_def encode_basestring_ascii_def escape_char_def
        numeral_2_eq_2)

lemma example_broken:
  "ET_parse example_os ''/proj/broken.aepx''
     = Inl (Raise ParseError ''syntax error: line 1, column 0'')"
  "exists example_os ''/proj/broken.aepx''"
  "endswith ''/proj/broken.aepx'' ''.aepx''"
  "abspath example_os ''/proj/broken.aepx'' = ''/proj/broken.aepx''"
  by code_simp+

lemma example_broken_relative:
  "ET_parse example_os ''broken.aepx''
     = Inl (Raise ParseError ''syntax error: line 1, column 0'')"
  "exists example_os ''broken.aepx''"
  "endswith ''broken.aepx'' ''.aepx''"
  "abspath example_os ''broken.aepx'' = ''/proj/broken.aepx''"
  "print (json_dumps 2 (report_json
     \<lparr>project_file = ''/proj/broken.aepx'', assets = [], missing_assets = [],
       total_size = 0\<rparr>)) =
   ''{\<newline>  \"project_file\": \"/proj/broken.aepx\",\<newline>  \"assets\": [],\<newline>  \"missing_assets\": [],\<newline>  \"total_size\": 0\<newline>}\<newline>''"
  by code_simp+

text \<open>
  Claim C3.  When the document fails to parse as XML, \<open>parse_aepx\<close> writes one warning to
  the error stream and returns the report with \<open>project_file\<close> set to the absolute input
  path, no assets, no missing assets and \<open>total_size = 0\<close>.  Run from the command line on
  such a document (an existing path that ends with \<open>.aepx\<close>), the program prints that
  report and exits with code 0.
\<close>

theorem malformed_xml_soft_fail:
  assumes "ET_parse os p = Inl (Raise ParseError msg)"
  shows "parse_aepx os h p =
           Inr (\<lparr>project_file = abspath os p, assets = [], missing_assets = [],
                  total_size = 0\<rparr>,
                [''Warning: XML parse error: '' @ msg])
         \<and> (exists os p \<and> endswith p ''.aepx'' \<longrightarrow>
              main os h [prog, p] =
                \<lparr>status = Exited 0,
                 stdout = print (json_dumps 2 (report_json
                   \<lparr>project_file = abspath os p, assets = [], missing_assets = [],
                     total_size = 0\<rparr>)),
                 stderr = print (''Warning: XML parse error: '' @ msg)\<rparr>)"
  using assms by (simp add: parse_aepx_Inl empty_report_def main_def)

theorem malformed_xml_soft_fail_witness:
  "ET_parse example_os ''/proj/broken.aepx''
     = Inl (Raise ParseError ''syntax error: line 1, column 0'')
   \<and> exists example_os ''/proj/broken.aepx'' \<and> endswith ''/proj/broken.aepx'' ''.aepx''
   \<and> parse_aepx example_os (\<lambda>_. 0) ''/proj/broken.aepx'' =
         Inr (\<lparr>project_file = ''/proj/broken.aepx'', assets = [], missing_assets = [],
                total_size = 0\<rparr>,
              [''Warning: XML parse error: syntax error: line 1, column 0''])
   \<and> main example_os (\<lambda>_. 0) [''parse_aepx.py'', ''/proj/broken.aepx''] =
         \<lparr>status = Exited 0,
          stdout = print (json_dumps 2 (report_json
            \<lparr>project_file = ''/proj/broken.aepx'', assets = [], missing_assets = [],
              total_size = 0\<rparr>)),
          stderr = print ''Warning: XML parse error: syntax error: line 1, column 0''\<rparr>
   \<and> main example_os (\<lambda>_. 0) [''parse_aepx.py'', ''broken.aepx''] =
         \<lparr>status = Exited 0,
          stdout = ''{\<newline>  \"project_file\": \"/proj/broken.aepx\",\<newline>  \"assets\": [],\<newline>  \"missing_assets\": [],\<newline>  \"total_size\": 0\<newline>}\<newline>'',
          stderr = print ''Warning: XML parse error: syntax error: line 1, column 0''\<rparr>"
proof -
  have a: "main example_os (\<lambda>_. 0) [''parse_aepx.py'', ''broken.aepx''] =
         \<lparr>status = Exited 0,
          stdout = print (json_dumps 2 (report_json
            \<lparr>project_file = ''/proj/broken.aepx'', assets = [], missing_assets = [],
              total_size = 0\<rparr>)),
          stderr = print ''Warning: XML parse error: syntax error: line 1, column 0''\<rparr>"
    using malformed_xml_soft_fail [OF example_broken_relative(1), of "\<lambda>_. 0"
        "''parse_aepx.py''"]
      example_broken_relative(2,3,4)
    by simp
  show ?thesis
    using malformed_xml_soft_fail [OF example_broken(1), of "\<lambda>_. 0" "''parse_aepx.py''"]
      example_broken a [unfolded example_broken_relative(5)]
    by simp
qed

text \<open>
  Claim C4.  The command line exits with code 1, with a message on the error stream and
  nothing on standard output, when the number of arguments is not exactly one, when the
  path does not exist, or when it does not end with \<open>.aepx\<close>.  Otherwise \<open>parse_aepx\<close>
  returns a report, the program prints it as JSON indented by two spaces (the text
  \<open>report_text\<close> spells out, key by key and line by line), and exits with 2 when
  \<open>missing_assets\<close> is non-empty and with 0 when it is empty.
\<close>

theorem main_exit_codes:
  "(length argv \<noteq> 2 \<longrightarrow>
      status (main os h argv) = Exited 1 \<and> stdout (main os h argv) = []
      \<and> stderr (main os h argv) \<noteq> [])
   \<and> (length argv = 2 \<and> \<not> exists os (argv ! 1) \<longrightarrow>
      status (main os h argv) = Exited 1 \<and> stdout (main os h argv) = []
      \<and> stderr (main os h argv) \<noteq> [])
   \<and> (length argv = 2 \<and> \<not> endswith (argv ! 1) ''.aepx'' \<longrightarrow>
      status (main os h argv) = Exited 1 \<and> stdout (main os h argv) = []
      \<and> stderr (main os h argv) \<noteq> [])
   \<and> (length argv = 2 \<and> exists os (argv ! 1) \<and> endswith (argv ! 1) ''.aepx'' \<longrightarrow>
      (\<exists>r err rest.
         parse_aepx os h (argv ! 1) = Inr (r, err)
         \<and> stdout (main os h argv) = print (json_dumps 2 (report_json r))
         \<and> stdout (main os h argv) = print (report_text r)
         \<and> json_dumps 2 (report_json r) =
             [CHR ''{'', CHR 0x0A, CHR '' '', CHR '' '', CHR 0x22] @ ''project_file''
               @ [CHR 0x22] @ '': '' @ rest
         \<and> status (main os h argv) = Exited (if missing_assets r = [] then 0 else 2)))"
proof -
  obtain r err where r: "parse_aepx os h (argv ! 1) = Inr (r, err)"
    using parse_aepx_total by blast
  obtain rest where rest: "json_dumps 2 (report_json r) =
     [CHR ''{'', CHR 0x0A, CHR '' '', CHR '' '', CHR 0x22] @ ''project_file'' @ [CHR 0x22]
       @ '': '' @ rest"
    using json_dumps_report_indent by blast
  have 1: "length argv \<noteq> 2 \<Longrightarrow> main os h argv =
      \<lparr>status = Exited 1, stdout = [],
       stderr = print ''Usage: parse_aepx.py <path-to-aepx-file>''\<rparr>"
    by (simp add: main_def)
  have 2: "length argv = 2 \<Longrightarrow> \<not> exists os (argv ! 1) \<Longrightarrow>
      status (main os h argv) = Exited 1 \<and> stdout (main os h argv) = []
      \<and> stderr (main os h argv) \<noteq> []"
    by (simp add: main_def print_def Let_def)
  have 3: "length argv = 2 \<Longrightarrow> \<not> endswith (argv ! 1) ''.aepx'' \<Longrightarrow>
      status (main os h argv) = Exited 1 \<and> stdout (main os h argv) = []
      \<and> stderr (main os h argv) \<noteq> []"
    by (simp add: main_def print_def Let_def)
  have 4: "length argv = 2 \<Longrightarrow> exists os (argv ! 1) \<Longrightarrow> endswith (argv ! 1) ''.aepx'' \<Longrightarrow>
      stdout (main os h argv) = print (json_dumps 2 (report_json r))
      \<and> status (main os h argv) = Exited (if missing_assets r = [] then 0 else 2)"
    using r by (simp add: main_def Let_def)
  have 5: "length argv = 2 \<and> exists os (argv ! 1) \<and> endswith (argv ! 1) ''.aepx'' \<longrightarrow>
      (\<exists>r err rest.
         parse_aepx os h (argv ! 1) = Inr (r, err)
         \<and> stdout (main os h argv) = print (json_dumps 2 (report_json r))
         \<and> stdout (main os h argv) = print (report_text r)
         \<and> json_dumps 2 (report_json r) =
             [CHR ''{'', CHR 0x0A, CHR '' '', CHR '' '', CHR 0x22] @ ''project_file''
               @ [CHR 0x22] @ '': '' @ rest
         \<and> status (main os h argv) = Exited (if missing_assets r = [] then 0 else 2))"
  proof (intro impI)
    assume "length argv = 2 \<and> exists os (argv ! 1) \<and> endswith (argv ! 1) ''.aepx''"
    with 4 have s: "stdout (main os h argv) = print (json_dumps 2 (report_json r))"
      "status (main os h argv) = Exited (if missing_assets r = [] then 0 else 2)"
      by blast+
    have t: "stdout (main os h argv) = print (report_text r)"
      using s(1) by (simp only: json_dumps_report_text)
    show "\<exists>r err rest.
         parse_aepx os h (argv ! 1) = Inr (r, err)
         \<and> stdout (main os h argv) = print (json_dumps 2 (report_json r))
         \<and> stdout (main os h argv) = print (report_text r)
         \<and> json_dumps 2 (report_json r) =
             [CHR ''{'', CHR 0x0A, CHR '' '', CHR '' '', CHR 0x22] @ ''project_file''
               @ [CHR 0x22] @ '': '' @ rest
         \<and> status (main os h argv) = Exited (if missing_assets r = [] then 0 else 2)"
      by (intro exI conjI) (rule r s t rest)+
  qed
  show ?thesis
    using 1 2 3 5 by (simp add: print_def)
qed


lemma example_preconditions:
  "exists example_os ''/proj/main.aepx''"
  "endswith ''/proj/main.aepx'' ''.aepx''"
  "\<not> exists example_os ''/proj/none.aepx''"
  "\<not> endswith ''/proj/footage/clip.mov'' ''.aepx''"
  by code_simp+

theorem main_exit_codes_witness:
  "length [''parse_aepx.py''] \<noteq> 2
   \<and> status (main example_os (\<lambda>_. 0) [''parse_aepx.py'']) = Exited 1
   \<and> stdout (main example_os (\<lambda>_. 0) [''parse_aepx.py'']) = []
   \<and> \<not> exists example_os ''/proj/none.aepx''
   \<and> status (main example_os (\<lambda>_. 0) [''parse_aepx.py'', ''/proj/none.aepx'']) = Exited 1
   \<and> stdout (main example_os (\<lambda>_. 0) [''parse_aepx.py'', ''/proj/none.aepx'']) = []
   \<and> \<not> endswith ''/proj/footage/clip.mov'' ''.aepx''
   \<and> status (main example_os (\<lambda>_. 0) [''parse_aepx.py'', ''/proj/footage/clip.mov''])
       = Exited 1
   \<and> stdout (main example_os (\<lambda>_. 0) [''parse_aepx.py'', ''/proj/footage/clip.mov'']) = []
   \<and> exists example_os ''/proj/main.aepx'' \<and> endswith ''/proj/main.aepx'' ''.aepx''
   \<and> missing_assets example_report \<noteq> []
   \<and> status (main example_os (\<lambda>_. 0) [''parse_aepx.py'', ''/proj/main.aepx'']) = Exited 2
   \<and> stdout (main example_os (\<lambda>_. 0) [''parse_aepx.py'', ''/proj/main.aepx''])
       = print (json_dumps 2 (report_json example_report))
   \<and> stdout (main example_os (\<lambda>_. 0) [''parse_aepx.py'', ''/proj/main.aepx'']) =
       ''{\<newline>  \"project_file\": \"/proj/main.aepx\",\<newline>  \"assets\": [\<newline>    {\<newline>      \"path\": \"/proj/footage/clip.mov\",\<newline>      \"relative_path\": \"footage/clip.mov\",\<newline>      \"filename\": \"clip.mov\",\<newline>      \"extension\": \".mov\",\<newline>      \"size\": 1024\<newline>    }\<newline>  ],\<newline>  \"missing_assets\": [\<newline>    \"/proj/HTTP:/example.com/a.mov\",\<newline>    \"/proj/missing/img.png\"\<newline>  ],\<newline>  \"total_size\": 1024\<newline>}\<newline>''"
proof -
  let ?run = "\<lambda>argv. main example_os (\<lambda>_. 0) argv"
  have a: "status (?run [''parse_aepx.py'']) = Exited 1 \<and> stdout (?run [''parse_aepx.py'']) = []"
    using main_exit_codes [of "[''parse_aepx.py'']" example_os "\<lambda>_. 0"] by simp
  have b: "status (?run [''parse_aepx.py'', ''/proj/none.aepx'']) = Exited 1
           \<and> stdout (?run [''parse_aepx.py'', ''/proj/none.aepx'']) = []"
    using main_exit_codes [of "[''parse_aepx.py'', ''/proj/none.aepx'']" example_os "\<lambda>_. 0"]
      example_preconditions(3)
    by simp
  have c: "status (?run [''parse_aepx.py'', ''/proj/footage/clip.mov'']) = Exited 1
           \<and> stdout (?run [''parse_aepx.py'', ''/proj/footage/clip.mov'']) = []"
    using main_exit_codes [of "[''parse_aepx.py'', ''/proj/footage/clip.mov'']" example_os
        "\<lambda>_. 0"]
      example_preconditions(4)
    by simp
  have d: "status (?run [''parse_aepx.py'', ''/proj/main.aepx'']) = Exited 2
           \<and> stdout (?run [''parse_aepx.py'', ''/proj/main.aepx''])
               = print (json_dumps 2 (report_json example_report))
           \<and> stdout (?run [''parse_aepx.py'', ''/proj/main.aepx''])
               = print (report_text example_report)"
    using main_exit_codes [of "[''parse_aepx.py'', ''/proj/main.aepx'']" example_os "\<lambda>_. 0"]
      example_preconditions(1,2) example_run
    by (auto simp: example_report_def)
  have e: "missing_assets example_report \<noteq> []"
    by (simp add: example_report_def)
  from d have f: "stdout (?run [''parse_aepx.py'', ''/proj/main.aepx''])
               = print (report_text example_report)"
    by blast
  from a b c d e example_preconditions show ?thesis
    unfolding f example_report_text by simp
qed

section \<open>The scheme filter is case sensitive\<close>

lemma set_iter_singleton: "set_iter h {c} = [c]"
  by (simp add: set_iter_def)

lemma example_upper:
  "ET_parse example_os ''/proj/upper.aepx'' = Inr upper_case_root"
  "collect_asset_paths upper_case_root = {''HTTP://example.com/a.mov''}"
  "abspath example_os ''/proj/upper.aepx'' = ''/proj/upper.aepx''"
  "resolved (dirname ''/proj/upper.aepx'') [''HTTP://example.com/a.mov'']
     = [''/proj/HTTP:/example.com/a.mov'']"
  "isfile example_os ''/proj/HTTP:/example.com/a.mov'' = False"
  by code_simp+

lemma example_lower:
  "ET_parse example_os ''/proj/lower.aepx'' = Inr lower_case_root"
  "collect_asset_paths lower_case_root = {''http://example.com/a.mov''}"
  "abspath example_os ''/proj/lower.aepx'' = ''/proj/lower.aepx''"
  "resolved (dirname ''/proj/lower.aepx'') [''http://example.com/a.mov''] = []"
  by code_simp+

text \<open>
  Claim C10.  The filter compares with the lower-case literals only.  A document whose
  one reference is \<open>HTTP://example.com/a.mov\<close> has that value as its candidate; it is not
  dropped but joined to the project directory and normalised, and, no such file
  existing, it is reported in \<open>missing_assets\<close>, whatever the iteration order.  The same
  document with the scheme in lower case reports nothing.
\<close>

theorem upper_case_scheme_not_filtered:
  "collect_asset_paths upper_case_root = {''HTTP://example.com/a.mov''}
   \<and> parse_aepx example_os h ''/proj/upper.aepx'' =
       Inr (\<lparr>project_file = ''/proj/upper.aepx'', assets = [],
              missing_assets = [''/proj/HTTP:/example.com/a.mov''], total_size = 0\<rparr>, [])
   \<and> collect_asset_paths lower_case_root = {''http://example.com/a.mov''}
   \<and> parse_aepx example_os h ''/proj/lower.aepx'' =
       Inr (\<lparr>project_file = ''/proj/lower.aepx'', assets = [], missing_assets = [],
              total_size = 0\<rparr>, [])"
proof -
  have u: "candidates_resolved example_os h ''/proj/upper.aepx'' upper_case_root
             = [''/proj/HTTP:/example.com/a.mov'']"
    by (simp add: candidates_resolved_def example_upper set_iter_singleton)
  have l: "candidates_resolved example_os h ''/proj/lower.aepx'' lower_case_root = []"
    by (simp add: candidates_resolved_def example_lower set_iter_singleton)
  show ?thesis
    by (simp add: parse_aepx_Inr [OF example_upper(1)] parse_aepx_Inr [OF example_lower(1)]
          u l example_upper example_lower)
qed


section \<open>Assets and missing assets partition the surviving candidates\<close>

lemma map_path_sort_key:
  "map path (sort_key path (map (asset_of os pd) qs)) = sort qs"
proof (rule sym, rule properties_for_sort)
  have "path \<circ> asset_of os pd = id" by (rule ext) simp
  then show "mset (map path (sort_key path (map (asset_of os pd) qs))) = mset qs"
    by (simp add: multiset.map_comp)
  show "sorted (map path (sort_key path (map (asset_of os pd) qs)))"
    by (rule sorted_sort_key)
qed

lemma mset_filter_candidates_resolved:
  "mset (filter P (candidates_resolved os h p root)) =
     image_mset (resolve (dirname (abspath os p)))
       (mset_set {c \<in> collect_asset_paths root.
                    survives c \<and> P (resolve (dirname (abspath os p)) c)})"
proof -
  have "filter_mset (\<lambda>c. P (resolve (dirname (abspath os p)) c))
          (filter_mset survives (mset_set (collect_asset_paths root)))
        = mset_set {c \<in> collect_asset_paths root.
                      survives c \<and> P (resolve (dirname (abspath os p)) c)}"
    by simp
  then show ?thesis
    by (simp only: mset_filter mset_candidates_resolved filter_mset_image_mset)
qed

lemma example_hypotheses:
  "ET_parse example_os ''/proj/main.aepx'' = Inr example_root"
  "isabs (getcwd example_os)"
  by code_simp+

text \<open>
  Claim C6.  For a well-formed document, every candidate of the set that survives the
  blank filter and the scheme filter contributes exactly one entry, its resolved path, to
  exactly one list: to \<open>assets\<close> when that path is a regular file, to \<open>missing_assets\<close>
  otherwise.  Nothing else is in the lists, no path is in both, and the number of entries
  is the number of surviving candidates: a string that several rules contribute is a single
  element of the set and gives a single entry.
\<close>

theorem assets_missing_partition:
  assumes "ET_parse os p = Inr root"
  shows "\<exists>r. parse_aepx os h p = Inr (r, [])
    \<and> mset (map path (assets r)) =
        image_mset (resolve (dirname (abspath os p)))
          (mset_set {c \<in> collect_asset_paths root.
                       survives c \<and> isfile os (resolve (dirname (abspath os p)) c)})
    \<and> mset (missing_assets r) =
        image_mset (resolve (dirname (abspath os p)))
          (mset_set {c \<in> collect_asset_paths root.
                       survives c \<and> \<not> isfile os (resolve (dirname (abspath os p)) c)})
    \<and> set (map path (assets r)) \<inter> set (missing_assets r) = {}
    \<and> length (assets r) + length (missing_assets r)
        = card {c \<in> collect_asset_paths root. survives c}"
proof -
  let ?pd = "dirname (abspath os p)"
  let ?R = "candidates_resolved os h p root"
  let ?C = "collect_asset_paths root"
  let ?F = "{c \<in> ?C. survives c \<and> isfile os (resolve ?pd c)}"
  let ?M = "{c \<in> ?C. survives c \<and> \<not> isfile os (resolve ?pd c)}"
  let ?r = "\<lparr>project_file = abspath os p,
            assets = sort_key path (map (asset_of os ?pd) (filter (isfile os) ?R)),
            missing_assets = sort (filter (\<lambda>q. \<not> isfile os q) ?R),
            total_size = sum_list (map size_bytes (map (asset_of os ?pd)
                           (filter (isfile os) ?R)))\<rparr>"
  have run: "parse_aepx os h p = Inr (?r, [])"
    using assms by (rule parse_aepx_Inr)
  have pa: "map path (assets ?r) = sort (filter (isfile os) ?R)"
    by (simp add: map_path_sort_key)
  have a: "mset (map path (assets ?r)) = image_mset (resolve ?pd) (mset_set ?F)"
    unfolding pa by (simp only: mset_sort mset_filter_candidates_resolved)
  have m: "mset (missing_assets ?r) = image_mset (resolve ?pd) (mset_set ?M)"
    by (simp only: report.simps mset_sort mset_filter_candidates_resolved)
  have d: "set (map path (assets ?r)) \<inter> set (missing_assets ?r) = {}"
    unfolding pa by auto
  have fin: "finite ?F" "finite ?M" by simp_all
  have "size (mset (map path (assets ?r))) = card ?F"
    unfolding a by simp
  then have la: "length (assets ?r) = card ?F"
    by (simp only: size_mset length_map)
  have "size (mset (missing_assets ?r)) = card ?M"
    unfolding m by simp
  then have lm: "length (missing_assets ?r) = card ?M"
    by (simp only: size_mset)
  have "card ?F + card ?M = card (?F \<union> ?M)"
    using fin by (intro card_Un_disjoint [symmetric]) auto
  also have "?F \<union> ?M = {c \<in> ?C. survives c}" by auto
  finally have c: "length (assets ?r) + length (missing_assets ?r) = card {c \<in> ?C. survives c}"
    using la lm by simp
  from run a m d c show ?thesis by blast
qed


theorem assets_missing_partition_witness:
  "ET_parse example_os ''/proj/main.aepx'' = Inr example_root
   \<and> parse_aepx example_os (\<lambda>_. 0) ''/proj/main.aepx'' = Inr (example_report, [])
   \<and> set (map path (assets example_report)) \<inter> set (missing_assets example_report) = {}
   \<and> length (assets example_report) + length (missing_assets example_report)
       = card {c \<in> collect_asset_paths example_root. survives c}
   \<and> card {c \<in> collect_asset_paths example_root. survives c} = 3"
proof -
  obtain r where r: "parse_aepx example_os (\<lambda>_. 0) ''/proj/main.aepx'' = Inr (r, [])"
    "set (map path (assets r)) \<inter> set (missing_assets r) = {}"
    "length (assets r) + length (missing_assets r)
       = card {c \<in> collect_asset_paths example_root. survives c}"
    using assets_missing_partition [OF example_hypotheses(1), of "\<lambda>_. 0"] by blast
  from r(1) example_run have e: "r = example_report" by simp
  have "length (assets example_report) + length (missing_assets example_report) = 3"
    by (simp add: example_report_def)
  with r e example_hypotheses(1) show ?thesis by simp
qed

text \<open>
  The set holds the candidates as the rules contribute them.  Two candidates that differ
  as strings are two elements of it, and each gives its own entry, also when both resolve
  to the same path.
\<close>

lemma two_spellings_two_entries:
  "collect_asset_paths two_spellings_root = {''missing/img.png'', ''./missing/img.png''}
   \<and> parse_aepx example_os h ''/proj/twice.aepx'' =
       Inr (\<lparr>project_file = ''/proj/twice.aepx'', assets = [],
              missing_assets = [''/proj/missing/img.png'', ''/proj/missing/img.png''],
              total_size = 0\<rparr>, [])"
proof -
  have "parse_aepx example_os (\<lambda>_. 0) ''/proj/twice.aepx'' =
       Inr (\<lparr>project_file = ''/proj/twice.aepx'', assets = [],
              missing_assets = [''/proj/missing/img.png'', ''/proj/missing/img.png''],
              total_size = 0\<rparr>, [])"
    by code_simp
  moreover have "collect_asset_paths two_spellings_root
                   = {''missing/img.png'', ''./missing/img.png''}"
    by code_simp
  ultimately show ?thesis
    using parse_aepx_hash_independent [of example_os h "''/proj/twice.aepx''" "\<lambda>_. 0"]
    by simp
qed

section \<open>Facts about path names\<close>

lemma isabs_Cons: "isabs q \<longleftrightarrow> (\<exists>t. q = CHR ''/'' # t)"
  by (cases q) (auto simp: isabs_def)

lemma isabs_normpath: "isabs q \<Longrightarrow> isabs (normpath q)"
  by (auto simp: isabs_Cons normpath_def Let_def numeral_2_eq_2)

lemma isabs_join: "isabs a \<Longrightarrow> isabs (join a [b])"
proof (cases "isabs b")
  case True
  then show ?thesis by (simp add: join_def join_step_def isabs_def)
next
  case False
  assume "isabs a"
  with False show ?thesis
    by (auto simp: join_def join_step_def isabs_def [symmetric] isabs_Cons)
qed

lemma isabs_abspath: "isabs (getcwd os) \<Longrightarrow> isabs (abspath os q)"
  by (simp add: abspath_def isabs_normpath isabs_join)

lemma rfind_ge: "- 1 \<le> rfind s c"
  by (induction s) (auto simp: Let_def)

lemma rfind_notin: "c \<notin> set s \<Longrightarrow> rfind s c = - 1"
  by (induction s) (auto simp: Let_def)

lemma rfind_last: "c \<notin> set suf \<Longrightarrow> rfind (pre @ c # suf) c = int (length pre)"
  by (induction pre) (auto simp: Let_def rfind_notin)

lemma rfind_last_Suc: "c \<notin> set suf \<Longrightarrow> nat (rfind (pre @ c # suf) c + 1) = Suc (length pre)"
  by (simp add: rfind_last)

lemma rstrip_char_append:
  "\<exists>y\<in>set ys. y \<noteq> c \<Longrightarrow> rstrip_char c (xs @ ys) = xs @ rstrip_char c ys"
proof -
  assume "\<exists>y\<in>set ys. y \<noteq> c"
  then obtain y where "y \<in> set (rev ys)" "\<not> (\<lambda>x. x = c) y" by auto
  then have "dropWhile (\<lambda>x. x = c) (rev ys @ rev xs) = dropWhile (\<lambda>x. x = c) (rev ys) @ rev xs"
    by (rule dropWhile_append1)
  then show ?thesis by (simp add: rstrip_char_def)
qed

lemma isabs_dirname: "isabs q \<Longrightarrow> isabs (dirname q)"
proof -
  assume "isabs q"
  then obtain t where q: "q = CHR ''/'' # t" by (auto simp: isabs_Cons)
  then have "CHR ''/'' \<in> set q" by simp
  then obtain pre suf where d: "q = pre @ CHR ''/'' # suf" "CHR ''/'' \<notin> set suf"
    by (meson split_list_last)
  then have i: "nat (rfind q (CHR ''/'') + 1) = Suc (length pre)"
    using rfind_last_Suc by blast
  have head: "take (nat (rfind q (CHR ''/'') + 1)) q = pre @ ''/''"
    unfolding i using d by simp
  define hd where "hd = pre @ ''/''"
  have dn: "dirname q =
      (if hd \<noteq> [] \<and> hd \<noteq> replicate (length hd) (CHR ''/'')
       then rstrip_char (CHR ''/'') hd else hd)"
    unfolding dirname_def Let_def head hd_def ..
  obtain u where u: "hd = CHR ''/'' # u"
    using q d unfolding hd_def by (cases pre) auto
  show ?thesis
  proof (cases "hd = replicate (length hd) (CHR ''/'')")
    case True
    then show ?thesis
      unfolding dn using u by (simp add: isabs_Cons)
  next
    case False
    then have "u \<noteq> replicate (length u) (CHR ''/'')"
      using u by auto
    then have ex: "\<exists>y\<in>set u. y \<noteq> CHR ''/''"
      by (metis replicate_eqI)
    have "rstrip_char (CHR ''/'') ([CHR ''/''] @ u) = [CHR ''/''] @ rstrip_char (CHR ''/'') u"
      using ex by (rule rstrip_char_append)
    then have "rstrip_char (CHR ''/'') hd = CHR ''/'' # rstrip_char (CHR ''/'') u"
      using u by simp
    then show ?thesis
      unfolding dn using False u by (simp add: isabs_Cons)
  qed
qed

lemma isabs_resolve: "isabs pd \<Longrightarrow> isabs (resolve pd c)"
  by (simp add: resolve_def isabs_normpath isabs_join)

lemma str_split_not_Nil [simp]: "str_split c s \<noteq> []"
  by (induction s) (auto split: list.splits)

lemma str_split_notin: "c \<notin> set s \<Longrightarrow> str_split c s = [s]"
  by (induction s) auto

lemma str_split_append:
  "str_split c (xs @ c # ys) = str_split c xs @ str_split c ys"
  by (induction xs) (auto split: list.splits)

lemma basename_last_split: "basename q = last (str_split (CHR ''/'') q)"
proof (cases "CHR ''/'' \<in> set q")
  case False
  then show ?thesis
    by (simp add: basename_def rfind_notin str_split_notin)
next
  case True
  then obtain pre suf where d: "q = pre @ CHR ''/'' # suf" "CHR ''/'' \<notin> set suf"
    by (meson split_list_last)
  then show ?thesis
    by (simp add: basename_def rfind_last_Suc str_split_append str_split_notin)
qed


lemma splitext_loop_eq:
  "0 \<le> i \<Longrightarrow> i \<le> d \<Longrightarrow> nat d \<le> length q \<Longrightarrow>
   splitext_loop q i d =
     (if filter (\<lambda>c. c \<noteq> CHR ''.'') (take (nat d - nat i) (drop (nat i) q)) \<noteq> []
      then (take (nat d) q, drop (nat d) q) else (q, []))"
proof (induction q i d rule: splitext_loop.induct)
  case (1 p i d)
  show ?case
  proof (cases "i < d")
    case False
    with "1.prems" have "nat d - nat i = 0" by simp
    with False show ?thesis
      by (subst splitext_loop.simps) simp
  next
    case True
    with "1.prems" have lt: "nat i < length p" by linarith
    then have dr: "drop (nat i) p = p ! nat i # drop (Suc (nat i)) p"
      by (simp add: Cons_nth_drop_Suc)
    from True "1.prems" have n: "nat d - nat i = Suc (nat d - nat (i + 1))"
      "nat (i + 1) = Suc (nat i)"
      by linarith+
    have t1: "take 1 (drop (nat i) p) = [p ! nat i]" "take (Suc 0) (drop (nat i) p) = [p ! nat i]"
      by (simp_all add: dr)
    show ?thesis
    proof (cases "p ! nat i = CHR ''.''")
      case False
      with True show ?thesis
        by (subst splitext_loop.simps) (simp add: t1 n dr)
    next
      case dot: True
      have "splitext_loop p i d = splitext_loop p (i + 1) d"
        using True dot by (subst splitext_loop.simps) (simp add: t1)
      also have "\<dots> =
         (if filter (\<lambda>c. c \<noteq> CHR ''.'') (take (nat d - nat (i + 1)) (drop (nat (i + 1)) p)) \<noteq> []
          then (take (nat d) p, drop (nat d) p) else (p, []))"
        using True dot "1.prems" by (intro "1.IH") (simp_all add: t1)
      also have "\<dots> =
         (if filter (\<lambda>c. c \<noteq> CHR ''.'') (take (nat d - nat i) (drop (nat i) p)) \<noteq> []
          then (take (nat d) p, drop (nat d) p) else (p, []))"
        using dot by (simp add: n dr)
      finally show ?thesis .
    qed
  qed
qed

lemma basename_decomp:
  obtains D where "q = D @ basename q" "rfind q (CHR ''/'') + 1 = int (length D)"
    "D = [] \<or> (\<exists>d. D = d @ ''/'')" "CHR ''/'' \<notin> set (basename q)"
proof (cases "CHR ''/'' \<in> set q")
  case False
  then have "q = [] @ basename q" "rfind q (CHR ''/'') + 1 = int (length ([]::string))"
    "CHR ''/'' \<notin> set (basename q)"
    by (simp_all add: basename_def rfind_notin)
  then show ?thesis using that by blast
next
  case True
  then obtain pre suf where d: "q = pre @ CHR ''/'' # suf" "CHR ''/'' \<notin> set suf"
    by (meson split_list_last)
  then have b: "basename q = suf"
    by (simp add: basename_def rfind_last_Suc)
  have "q = (pre @ ''/'') @ basename q" "rfind q (CHR ''/'') + 1 = int (length (pre @ ''/''))"
    "CHR ''/'' \<notin> set (basename q)"
    using d b by (simp_all add: rfind_last)
  then show ?thesis using that by blast
qed

lemma suffix_of_no_dot: "CHR ''.'' \<notin> set name \<Longrightarrow> suffix_of name = []"
  by (simp add: suffix_of_def Let_def)

lemma suffix_of_last_dot:
  assumes "CHR ''.'' \<notin> set suf"
  shows "suffix_of (pre @ CHR ''.'' # suf) =
           (if filter (\<lambda>c. c \<noteq> CHR ''.'') pre \<noteq> [] then CHR ''.'' # suf else [])"
proof -
  have "takeWhile (\<lambda>c. c \<noteq> CHR ''.'') (rev suf @ CHR ''.'' # rev pre) = rev suf"
    using assms by (auto simp: takeWhile_tail)
  then show ?thesis
    by (simp add: suffix_of_def Let_def)
qed

lemma splitext_suffix_of: "snd (splitext q) = suffix_of (basename q)"
proof -
  obtain D where D: "q = D @ basename q" "rfind q (CHR ''/'') + 1 = int (length D)"
    "D = [] \<or> (\<exists>d. D = d @ ''/'')" "CHR ''/'' \<notin> set (basename q)"
    by (rule basename_decomp)
  let ?fn = "basename q"
  show ?thesis
  proof (cases "CHR ''.'' \<in> set ?fn")
    case True
    then obtain pre suf where f: "?fn = pre @ CHR ''.'' # suf" "CHR ''.'' \<notin> set suf"
      by (meson split_list_last)
    then have q: "q = (D @ pre) @ CHR ''.'' # suf" using D(1) by simp
    have "rfind ((D @ pre) @ CHR ''.'' # suf) (CHR ''.'') = int (length (D @ pre))"
      using f(2) by (rule rfind_last)
    then have dot: "rfind q (CHR ''.'') = int (length D + length pre)"
      using q by simp
    have gt: "rfind q (CHR ''.'') > rfind q (CHR ''/'')"
      using dot D(2) by linarith
    have seg: "take (length D + length pre - length D) (drop (length D) q) = pre"
      by (subst q) simp
    have "splitext q = splitext_loop q (int (length D)) (int (length D + length pre))"
      using gt D(2) dot by (simp add: splitext_def Let_def)
    also have "\<dots> =
       (if filter (\<lambda>c. c \<noteq> CHR ''.'') pre \<noteq> []
        then (take (length D + length pre) q, drop (length D + length pre) q) else (q, []))"
    proof -
      have le: "0 \<le> int (length D)" "int (length D) \<le> int (length D + length pre)"
        "nat (int (length D + length pre)) \<le> length q"
        by (simp, simp, subst q, simp)
      show ?thesis
        using splitext_loop_eq [OF le] by (simp only: seg nat_int)
    qed
    finally have "snd (splitext q) =
       (if filter (\<lambda>c. c \<noteq> CHR ''.'') pre \<noteq> [] then CHR ''.'' # suf else [])"
      by (simp add: q)
    then show ?thesis
      by (simp add: f suffix_of_last_dot)
  next
    case False
    have "\<not> rfind q (CHR ''.'') > rfind q (CHR ''/'')"
    proof (cases "CHR ''.'' \<in> set D")
      case nd: False
      with False D(1) have "CHR ''.'' \<notin> set q"
        by (metis Un_iff set_append)
      then show ?thesis
        using rfind_ge [of q "CHR ''/''"] by (simp add: rfind_notin)
    next
      case True
      with D(3) obtain d where d: "D = d @ ''/''" "CHR ''.'' \<in> set d" by auto
      then obtain p1 p2 where p: "d = p1 @ CHR ''.'' # p2" "CHR ''.'' \<notin> set p2"
        by (meson split_list_last)
      have q: "q = p1 @ CHR ''.'' # (p2 @ ''/'' @ ?fn)"
        by (subst D(1)) (simp add: d p)
      have "rfind q (CHR ''.'') = int (length p1)"
        by (subst q, rule rfind_last) (use p False in simp)
      then show ?thesis
        using D(2) d p by simp
    qed
    then show ?thesis
      using False by (simp add: splitext_def Let_def suffix_of_no_dot)
  qed
qed


section \<open>The resolution of each candidate\<close>

lemma exists_and_isfile: "(exists os q \<and> isfile os q) = isfile os q"
  using isfile_exists by blast

text \<open>
  Claim C1.  When the document parses, the loop visits every candidate of the set once.
  A candidate that is blank, or whose trimmed value starts with \<open>http://\<close>, \<open>https://\<close> or
  \<open>file://\<close>, leaves no trace in the report.  Every other candidate is trimmed, joined
  to the directory of the input document unless it is absolute, and normalised; the
  resulting path gives one entry of \<open>assets\<close> when it exists and is a regular file, and
  one entry of \<open>missing_assets\<close> otherwise.  In each asset record \<open>path\<close> is that absolute
  path, \<open>relative_path\<close> is it relative to the project directory, \<open>filename\<close> its last
  segment, \<open>extension\<close> the suffix of the file name from its last dot (empty when there is
  none) and \<open>size\<close> the size of the file.  Both lists are then sorted.
\<close>

theorem resolution_of_candidates:
  assumes "ET_parse os p = Inr root" and "isabs (getcwd os)"
  shows "\<exists>r. parse_aepx os h p = Inr (r, [])
    \<and> set (set_iter h (collect_asset_paths root)) = collect_asset_paths root
    \<and> distinct (set_iter h (collect_asset_paths root))
    \<and> map path (assets r) =
        sort (filter (\<lambda>q. exists os q \<and> isfile os q)
                (map (resolve (dirname (abspath os p)))
                   (filter survives (set_iter h (collect_asset_paths root)))))
    \<and> missing_assets r =
        sort (filter (\<lambda>q. \<not> (exists os q \<and> isfile os q))
                (map (resolve (dirname (abspath os p)))
                   (filter survives (set_iter h (collect_asset_paths root)))))
    \<and> (\<forall>a\<in>set (assets r).
          isabs (path a)
          \<and> relpath os (path a) (dirname (abspath os p)) = Inr (relative_path a)
          \<and> filename a = last (str_split (CHR ''/'') (path a))
          \<and> extension a = suffix_of (filename a)
          \<and> getsize os (path a) = Inr (size_bytes a))
    \<and> (\<forall>q\<in>set (missing_assets r). isabs q)
    \<and> (\<forall>u. prefix ''http://'' u \<or> prefix ''https://'' u \<or> prefix ''file://'' u \<longrightarrow>
          u \<notin> set (map path (assets r)) \<and> u \<notin> set (missing_assets r))"
proof -
  let ?pd = "dirname (abspath os p)"
  let ?R = "candidates_resolved os h p root"
  let ?r = "\<lparr>project_file = abspath os p,
            assets = sort_key path (map (asset_of os ?pd) (filter (isfile os) ?R)),
            missing_assets = sort (filter (\<lambda>q. \<not> isfile os q) ?R),
            total_size = sum_list (map size_bytes (map (asset_of os ?pd)
                           (filter (isfile os) ?R)))\<rparr>"
  have R: "?R = map (resolve ?pd) (filter survives (set_iter h (collect_asset_paths root)))"
    by (simp add: candidates_resolved_def resolved_def)
  have run: "parse_aepx os h p = Inr (?r, [])"
    using assms(1) by (rule parse_aepx_Inr)
  have it: "set (set_iter h (collect_asset_paths root)) = collect_asset_paths root"
    "distinct (set_iter h (collect_asset_paths root))"
    by (simp_all add: set_set_iter distinct_set_iter)
  have pa: "map path (assets ?r) = sort (filter (\<lambda>q. exists os q \<and> isfile os q) ?R)"
    by (simp add: map_path_sort_key exists_and_isfile)
  have ma: "missing_assets ?r = sort (filter (\<lambda>q. \<not> (exists os q \<and> isfile os q)) ?R)"
    by (simp add: exists_and_isfile)
  have pd: "isabs ?pd"
    using assms(2) by (simp add: isabs_dirname isabs_abspath)
  have absR: "isabs q" if "q \<in> set ?R" for q
    using that pd by (auto simp: R isabs_resolve)
  have fields: "isabs (path a)
          \<and> relpath os (path a) ?pd = Inr (relative_path a)
          \<and> filename a = last (str_split (CHR ''/'') (path a))
          \<and> extension a = suffix_of (filename a)
          \<and> getsize os (path a) = Inr (size_bytes a)" if "a \<in> set (assets ?r)" for a
  proof -
    from that obtain q where q: "a = asset_of os ?pd q" "q \<in> set ?R" "isfile os q"
      by auto
    then have "q \<noteq> []" by (auto simp: R resolve_def)
    then obtain rel where rel: "relpath os q ?pd = Inr rel"
      using relpath_Inr by blast
    obtain n where n: "getsize os q = Inr n"
      using q(3) isfile_getsize by blast
    show ?thesis
      using q rel n absR
      by (simp add: asset_of_def basename_last_split [symmetric] splitext_suffix_of)
  qed
  have miss: "isabs q" if "q \<in> set (missing_assets ?r)" for q
    using that absR by simp
  have url: "u \<notin> set (map path (assets ?r)) \<and> u \<notin> set (missing_assets ?r)"
    if "prefix ''http://'' u \<or> prefix ''https://'' u \<or> prefix ''file://'' u" for u
  proof -
    from that have "\<not> isabs u"
      by (auto simp: isabs_Cons prefix_def)
    then show ?thesis
      using fields miss by auto
  qed
  show ?thesis
    using run it pa ma fields miss url unfolding R by blast
qed

theorem resolution_of_candidates_witness:
  "ET_parse example_os ''/proj/main.aepx'' = Inr example_root
   \<and> isabs (getcwd example_os)
   \<and> parse_aepx example_os (\<lambda>_. 0) ''/proj/main.aepx'' = Inr (example_report, [])
   \<and> map path (assets example_report) =
        sort (filter (\<lambda>q. exists example_os q \<and> isfile example_os q)
                (map (resolve (dirname (abspath example_os ''/proj/main.aepx'')))
                   (filter survives (set_iter (\<lambda>_. 0) (collect_asset_paths example_root)))))
   \<and> missing_assets example_report =
        sort (filter (\<lambda>q. \<not> (exists example_os q \<and> isfile example_os q))
                (map (resolve (dirname (abspath example_os ''/proj/main.aepx'')))
                   (filter survives (set_iter (\<lambda>_. 0) (collect_asset_paths example_root)))))
   \<and> assets example_report =
        [\<lparr>path = ''/proj/footage/clip.mov'', relative_path = ''footage/clip.mov'',
          filename = ''clip.mov'', extension = ''.mov'', size_bytes = 1024\<rparr>]
   \<and> missing_assets example_report =
        [''/proj/HTTP:/example.com/a.mov'', ''/proj/missing/img.png'']"
proof -
  obtain r where r: "parse_aepx example_os (\<lambda>_. 0) ''/proj/main.aepx'' = Inr (r, [])"
    "map path (assets r) =
        sort (filter (\<lambda>q. exists example_os q \<and> isfile example_os q)
                (map (resolve (dirname (abspath example_os ''/proj/main.aepx'')))
                   (filter survives (set_iter (\<lambda>_. 0) (collect_asset_paths example_root)))))"
    "missing_assets r =
        sort (filter (\<lambda>q. \<not> (exists example_os q \<and> isfile example_os q))
                (map (resolve (dirname (abspath example_os ''/proj/main.aepx'')))
                   (filter survives (set_iter (\<lambda>_. 0) (collect_asset_paths example_root)))))"
    using resolution_of_candidates [OF example_hypotheses, of "\<lambda>_. 0"] by blast
  from r(1) example_run have "r = example_report" by simp
  with r example_hypotheses show ?thesis
    by (simp add: example_report_def)
qed


end
